theory Spec2Isabelle
  imports Complex_Main "HOL-Library.Char_ord" "HOL-Library.List_Lexorder"
    "HOL-Library.Product_Lexorder" "HOL-Library.Sublist" "HOL-Library.Multiset"
begin

section \<open>Python strings\<close>

text \<open>
  Strings are lists of characters. The model covers ASCII text: the character classes
  below are the ASCII part of Python's \<^verbatim>\<open>str.isspace\<close>, \<^verbatim>\<open>str.lower\<close>, \<^verbatim>\<open>\d\<close>,
  \<^verbatim>\<open>\s\<close> and \<^verbatim>\<open>\w\<close>; a character above 127 is neither a letter, a digit nor a
  space here.
\<close>

definition ascii_upper :: string where
  "ascii_upper = ''ABCDEFGHIJKLMNOPQRSTUVWXYZ''"

definition ascii_lower :: string where
  "ascii_lower = ''abcdefghijklmnopqrstuvwxyz''"

definition ascii_digits :: string where
  "ascii_digits = ''0123456789''"

definition is_digit :: "char \<Rightarrow> bool" where
  "is_digit c = (c \<in> set ascii_digits)"

definition is_space :: "char \<Rightarrow> bool" where
  "is_space c = (c \<in> set [CHR 0x09, CHR 0x0A, CHR 0x0B, CHR 0x0C, CHR 0x0D,
                            CHR 0x1C, CHR 0x1D, CHR 0x1E, CHR 0x1F, CHR '' ''])"

definition is_word :: "char \<Rightarrow> bool" where
  "is_word c = (c \<in> set ascii_lower \<or> c \<in> set ascii_upper \<or> c \<in> set ascii_digits \<or> c = CHR ''_'')"

definition to_lower :: "char \<Rightarrow> char" where
  "to_lower c = (case map_of (zip ascii_upper ascii_lower) c of Some d \<Rightarrow> d | None \<Rightarrow> c)"

definition to_upper :: "char \<Rightarrow> char" where
  "to_upper c = (case map_of (zip ascii_lower ascii_upper) c of Some d \<Rightarrow> d | None \<Rightarrow> c)"

definition lower :: "string \<Rightarrow> string" where
  "lower s = map to_lower s"

definition upper :: "string \<Rightarrow> string" where
  "upper s = map to_upper s"

text \<open>\<^verbatim>\<open>str.capitalize()\<close>: first character upper case, the rest lower case.\<close>

definition capitalize :: "string \<Rightarrow> string" where
  "capitalize s = (case s of [] \<Rightarrow> [] | c # cs \<Rightarrow> to_upper c # map to_lower cs)"

text \<open>\<^verbatim>\<open>str.split()\<close> with no argument: the maximal runs of non-space characters.\<close>

fun split_ws_aux :: "string \<Rightarrow> string \<Rightarrow> string list" where
  "split_ws_aux cur [] = (if cur = [] then [] else [cur])"
| "split_ws_aux cur (c # cs) =
     (if is_space c then (if cur = [] then split_ws_aux [] cs else cur # split_ws_aux [] cs)
      else split_ws_aux (cur @ [c]) cs)"

definition split_ws :: "string \<Rightarrow> string list" where
  "split_ws s = split_ws_aux [] s"

text \<open>\<^verbatim>\<open>sep.join(words)\<close>.\<close>

fun join :: "string \<Rightarrow> string list \<Rightarrow> string" where
  "join sep [] = []"
| "join sep [w] = w"
| "join sep (w # v # ws) = w @ sep @ join sep (v # ws)"

text \<open>\<^verbatim>\<open>s.replace(x, y)\<close> for single characters \<open>x\<close> and \<open>y\<close>.\<close>

definition replace_char :: "char \<Rightarrow> char \<Rightarrow> string \<Rightarrow> string" where
  "replace_char x y s = map (\<lambda>c. if c = x then y else c) s"

text \<open>\<^verbatim>\<open>s.strip()\<close>.\<close>

definition strip :: "string \<Rightarrow> string" where
  "strip s = rev (dropWhile is_space (rev (dropWhile is_space s)))"

text \<open>\<^verbatim>\<open>s.split(d)\<close> for a single character \<open>d\<close>: empty pieces are kept.\<close>

fun split_on :: "char \<Rightarrow> string \<Rightarrow> string list" where
  "split_on d [] = [[]]"
| "split_on d (c # cs) =
     (if c = d then [] # split_on d cs
      else (case split_on d cs of [] \<Rightarrow> [[c]] | w # ws \<Rightarrow> (c # w) # ws))"

text \<open>\<^verbatim>\<open>int(s)\<close> on a string of decimal digits.\<close>

definition digit_val :: "char \<Rightarrow> int" where
  "digit_val c = int (of_char c) - 48"

definition int_of_digits :: "string \<Rightarrow> int" where
  "int_of_digits s = foldl (\<lambda>n c. 10 * n + digit_val c) 0 s"

section \<open>Regular expressions as Python's \<^verbatim>\<open>re\<close> module runs them\<close>

text \<open>
  The patterns of the program are written as terms of \<open>rx\<close>. The matcher is a
  backtracking matcher: from a state (text before the position, text after it, groups
  captured so far) it returns every way to match, in the order in which Python tries them,
  so the head of the list is the match Python reports. \<open>Many p lo lazy\<close> is a character
  class under \<^verbatim>\<open>+\<close>, \<^verbatim>\<open>*\<close> (\<open>lo\<close> is 1 or 0), greedy or lazy (\<^verbatim>\<open>+?\<close>);
  \<open>Rep r lo hi\<close> is \<^verbatim>\<open>r{lo,hi}\<close>; \<open>Look\<close> is \<^verbatim>\<open>(?=...)\<close>; \<open>Bnd\<close>, \<open>Bol\<close>,
  \<open>Eol\<close> are \<^verbatim>\<open>\b\<close>, \<^verbatim>\<open>^\<close>, \<^verbatim>\<open>$\<close>.
\<close>

datatype rx = Eps | Cls "char \<Rightarrow> bool" | Seq rx rx | Alt rx rx | Rep rx nat nat
  | Many "char \<Rightarrow> bool" nat bool | Grp nat rx | Look rx | Bnd | Bol | Eol

type_synonym caps = "(nat \<times> string) list"

type_synonym mstate = "string \<times> string \<times> caps"

fun rep_greedy :: "(mstate \<Rightarrow> mstate list) \<Rightarrow> nat \<Rightarrow> nat \<Rightarrow> mstate \<Rightarrow> mstate list" where
  "rep_greedy f lo 0 st = (if lo = 0 then [st] else [])"
| "rep_greedy f lo (Suc hi) st =
     concat (map (rep_greedy f (lo - 1) hi) (f st)) @ (if lo = 0 then [st] else [])"

primrec rxm :: "rx \<Rightarrow> mstate \<Rightarrow> mstate list" where
  "rxm Eps st = [st]"
| "rxm (Cls p) st = (case st of (b, a, c) \<Rightarrow>
     (case a of [] \<Rightarrow> [] | x # xs \<Rightarrow> if p x then [(b @ [x], xs, c)] else []))"
| "rxm (Seq r1 r2) st = concat (map (rxm r2) (rxm r1 st))"
| "rxm (Alt r1 r2) st = rxm r1 st @ rxm r2 st"
| "rxm (Rep r lo hi) st = rep_greedy (rxm r) lo hi st"
| "rxm (Many p lo lazy) st = (case st of (b, a, c) \<Rightarrow>
     (let n = length (takeWhile p a);
          ks = (if lazy then [lo..<Suc n] else rev [lo..<Suc n])
      in map (\<lambda>k. (b @ take k a, drop k a, c)) ks))"
| "rxm (Grp n r) st = (case st of (b, a, c) \<Rightarrow>
     map (\<lambda>(b', a', c'). (b', a', (n, drop (length b) b') # c')) (rxm r st))"
| "rxm (Look r) st = (if rxm r st = [] then [] else [st])"
| "rxm Bnd st = (case st of (b, a, c) \<Rightarrow>
     (if (b \<noteq> [] \<and> is_word (last b)) \<noteq> (a \<noteq> [] \<and> is_word (hd a)) then [st] else []))"
| "rxm Bol st = (case st of (b, a, c) \<Rightarrow> if b = [] then [st] else [])"
| "rxm Eol st = (case st of (b, a, c) \<Rightarrow> if a = [] \<or> a = [CHR 0x0A] then [st] else [])"

text \<open>Character classes. \<open>chi\<close> is a literal character under \<^verbatim>\<open>re.IGNORECASE\<close>.\<close>

definition dot :: "char \<Rightarrow> bool" where
  "dot c = (c \<noteq> CHR 0x0A)"

definition ch :: "char \<Rightarrow> char \<Rightarrow> bool" where
  "ch x c = (c = x)"

definition chi :: "char \<Rightarrow> char \<Rightarrow> bool" where
  "chi x c = (to_lower c = to_lower x)"

definition one_of :: "string \<Rightarrow> char \<Rightarrow> bool" where
  "one_of s c = (c \<in> set s)"

definition seqs :: "rx list \<Rightarrow> rx" where
  "seqs rs = foldr Seq rs Eps"

fun alts :: "rx list \<Rightarrow> rx" where
  "alts [] = Cls (\<lambda>c. False)"
| "alts [r] = r"
| "alts (r # q # rs) = Alt r (alts (q # rs))"

definition lit :: "string \<Rightarrow> rx" where
  "lit s = seqs (map (\<lambda>x. Cls (ch x)) s)"

definition lit_i :: "string \<Rightarrow> rx" where
  "lit_i s = seqs (map (\<lambda>x. Cls (chi x)) s)"

text \<open>
  \<^verbatim>\<open>re.search\<close>: the first position, from the left, at which the pattern matches; the
  result is the groups of the match, group 0 being the whole match. \<^verbatim>\<open>re.match\<close> tries
  the start of the string only.
\<close>

fun search_from :: "rx \<Rightarrow> string \<Rightarrow> string \<Rightarrow> caps option" where
  "search_from r b [] =
     (case rxm (Grp 0 r) (b, [], []) of [] \<Rightarrow> None | (_, _, c) # _ \<Rightarrow> Some c)"
| "search_from r b (x # xs) =
     (case rxm (Grp 0 r) (b, x # xs, []) of
        [] \<Rightarrow> search_from r (b @ [x]) xs
      | (_, _, c) # _ \<Rightarrow> Some c)"

definition re_search :: "rx \<Rightarrow> string \<Rightarrow> caps option" where
  "re_search r s = search_from r [] s"

definition re_match :: "rx \<Rightarrow> string \<Rightarrow> caps option" where
  "re_match r s = (case rxm (Grp 0 r) ([], s, []) of [] \<Rightarrow> None | (_, _, c) # _ \<Rightarrow> Some c)"

definition group :: "caps \<Rightarrow> nat \<Rightarrow> string" where
  "group m n = (case map_of m n of None \<Rightarrow> [] | Some g \<Rightarrow> g)"

text \<open>
  \<^verbatim>\<open>re.sub(pattern, repl, s)\<close> with a replacement that has no group reference: every
  non-overlapping match, from the left, is replaced. None of the patterns that the program
  substitutes can match the empty string; at an empty match the model advances by one
  character.
\<close>

function sub_from :: "rx \<Rightarrow> string \<Rightarrow> string \<Rightarrow> string \<Rightarrow> string" where
  "sub_from r repl b [] = (case rxm r (b, [], []) of [] \<Rightarrow> [] | _ # _ \<Rightarrow> repl)"
| "sub_from r repl b (x # xs) =
     (case rxm r (b, x # xs, []) of
        [] \<Rightarrow> x # sub_from r repl (b @ [x]) xs
      | (b', a', _) # _ \<Rightarrow>
          (if length a' < length (x # xs) then repl @ sub_from r repl b' a'
           else repl @ x # sub_from r repl (b @ [x]) xs))"
  by pat_completeness auto
termination
  by (relation "measure (\<lambda>(r, repl, b, a). length a)") auto

definition re_sub :: "rx \<Rightarrow> string \<Rightarrow> string \<Rightarrow> string" where
  "re_sub r repl s = sub_from r repl [] s"

section \<open>downloads_import.py: filename classification\<close>

definition sep_class :: "char \<Rightarrow> bool" where
  "sep_class c = (c = CHR ''.'' \<or> is_space c)"

text \<open>\<^verbatim>\<open>S\d{1,2}E\d{1,2}\<close> and \<^verbatim>\<open>\d{1,2}x\d{1,2}\<close>, both under IGNORECASE.\<close>

definition rx_marker_SE :: rx where
  "rx_marker_SE = seqs [Cls (chi CHR ''S''), Rep (Cls is_digit) 1 2,
                        Cls (chi CHR ''E''), Rep (Cls is_digit) 1 2]"

definition rx_marker_x :: rx where
  "rx_marker_x = seqs [Rep (Cls is_digit) 1 2, Cls (chi CHR ''x''), Rep (Cls is_digit) 1 2]"

text \<open>\<^verbatim>\<open>(.+?)[.\s]+S(\d{1,2})E\d{1,2}\<close> and \<^verbatim>\<open>(.+?)[.\s]+(\d{1,2})x\d{1,2}\<close>.\<close>

definition rx_tv_SE :: rx where
  "rx_tv_SE = seqs [Grp 1 (Many dot 1 True), Many sep_class 1 False,
                    Cls (chi CHR ''S''), Grp 2 (Rep (Cls is_digit) 1 2),
                    Cls (chi CHR ''E''), Rep (Cls is_digit) 1 2]"

definition rx_tv_x :: rx where
  "rx_tv_x = seqs [Grp 1 (Many dot 1 True), Many sep_class 1 False,
                   Grp 2 (Rep (Cls is_digit) 1 2), Cls (chi CHR ''x''),
                   Rep (Cls is_digit) 1 2]"

text \<open>
  \<open>extract_tv_show_info\<close> returns the pair (show name, season number), or Python's
  \<^verbatim>\<open>(None, None)\<close>, which is \<open>None\<close> here.
\<close>

definition extract_tv_show_info :: "string \<Rightarrow> (string \<times> int) option" where
  "extract_tv_show_info filename =
     (case re_search rx_tv_SE filename of
        Some m \<Rightarrow> Some (strip (replace_char CHR ''.'' CHR '' '' (group m 1)),
                        int_of_digits (group m 2))
      | None \<Rightarrow>
         (case re_search rx_tv_x filename of
            Some m \<Rightarrow> Some (strip (replace_char CHR ''.'' CHR '' '' (group m 1)),
                            int_of_digits (group m 2))
          | None \<Rightarrow> None))"

definition is_tv_show :: "string \<Rightarrow> bool" where
  "is_tv_show filename =
     (if re_search rx_marker_SE filename \<noteq> None then True
      else if re_search rx_marker_x filename \<noteq> None then True
      else False)"

section \<open>JSON values and dictionaries\<close>

text \<open>
  An action log is a JSON array of objects. A dictionary is an association list, read
  with \<open>dget\<close>, which is \<^verbatim>\<open>d.get(k)\<close>: a missing key reads as \<^verbatim>\<open>None\<close>.
  \<open>truthy\<close> is Python's truth value of a JSON value, \<open>py_or\<close> is \<^verbatim>\<open>a or b\<close>.
\<close>

datatype json = JNull | JBool bool | JInt int | JStr string | JArr "json list"

type_synonym pydict = "(string \<times> json) list"

definition dget :: "pydict \<Rightarrow> string \<Rightarrow> json" where
  "dget d k = (case map_of d k of None \<Rightarrow> JNull | Some v \<Rightarrow> v)"

fun truthy :: "json \<Rightarrow> bool" where
  "truthy JNull = False"
| "truthy (JBool b) = b"
| "truthy (JInt n) = (n \<noteq> 0)"
| "truthy (JStr s) = (s \<noteq> [])"
| "truthy (JArr xs) = (xs \<noteq> [])"

definition py_or :: "json \<Rightarrow> json \<Rightarrow> json" where
  "py_or a b = (if truthy a then a else b)"

fun type_name :: "json \<Rightarrow> string" where
  "type_name JNull = ''NoneType''"
| "type_name (JBool b) = ''bool''"
| "type_name (JInt n) = ''int''"
| "type_name (JStr s) = ''str''"
| "type_name (JArr xs) = ''list''"

section \<open>The filesystem\<close>

text \<open>
  A path is the list of its components, as \<^verbatim>\<open>pathlib\<close> holds it; \<open>Path_of\<close> parses a
  string (POSIX flavour, every path taken from the root, so \<^verbatim>\<open>a/b\<close> and \<^verbatim>\<open>/a/b\<close> are
  the same path) and \<open>path_str\<close> prints it. The filesystem is the list of its entries
  in the order in which the operating system lists them; an entry is a regular file with
  its size in bytes, or a directory. The operating system's primitives succeed whenever
  their precondition holds (\<open>unlink\<close> on an existing file, \<open>rmdir\<close> on an empty
  directory); removing a directory that is not empty fails, which is \<open>None\<close>.
\<close>

type_synonym path = "string list"

datatype node = File nat | Dir

type_synonym fs = "(path \<times> node) list"

definition Path_of :: "string \<Rightarrow> path" where
  "Path_of s = filter (\<lambda>c. c \<noteq> [] \<and> c \<noteq> ''.'') (split_on CHR ''/'' s)"

definition path_str :: "path \<Rightarrow> string" where
  "path_str p = (if p = [] then ''/'' else concat (map (\<lambda>c. CHR ''/'' # c) p))"

definition path_parent :: "path \<Rightarrow> path" where
  "path_parent p = butlast p"

definition path_name :: "path \<Rightarrow> string" where
  "path_name p = (if p = [] then [] else last p)"

definition path_exists :: "fs \<Rightarrow> path \<Rightarrow> bool" where
  "path_exists fs p = (map_of fs p \<noteq> None)"

definition is_file :: "fs \<Rightarrow> path \<Rightarrow> bool" where
  "is_file fs p = (case map_of fs p of Some (File n) \<Rightarrow> True | _ \<Rightarrow> False)"

definition is_dir :: "fs \<Rightarrow> path \<Rightarrow> bool" where
  "is_dir fs p = (map_of fs p = Some Dir)"

definition iterdir :: "fs \<Rightarrow> path \<Rightarrow> path list" where
  "iterdir fs p = filter (\<lambda>q. q \<noteq> [] \<and> butlast q = p) (map fst fs)"

definition remove_entry :: "fs \<Rightarrow> path \<Rightarrow> fs" where
  "remove_entry fs p = filter (\<lambda>e. fst e \<noteq> p) fs"

definition unlink :: "fs \<Rightarrow> path \<Rightarrow> fs" where
  "unlink fs p = remove_entry fs p"

definition rmdir :: "fs \<Rightarrow> path \<Rightarrow> fs option" where
  "rmdir fs p = (if iterdir fs p = [] then Some (remove_entry fs p) else None)"

text \<open>\<^verbatim>\<open>shutil.rmtree\<close>: the directory and everything below it.\<close>

definition rmtree :: "fs \<Rightarrow> path \<Rightarrow> fs" where
  "rmtree fs p = filter (\<lambda>e. \<not> prefix p (fst e)) fs"

text \<open>\<^verbatim>\<open>Path.rename\<close> of a directory: every entry below it moves with it.\<close>

definition rename_path :: "fs \<Rightarrow> path \<Rightarrow> path \<Rightarrow> fs" where
  "rename_path fs old new =
     map (\<lambda>(q, n). if prefix old q then (new @ drop (length old) q, n) else (q, n)) fs"

text \<open>\<^verbatim>\<open>item.rglob('*')\<close>: everything below \<open>item\<close>.\<close>

definition rglob_all :: "fs \<Rightarrow> path \<Rightarrow> path list" where
  "rglob_all fs p = filter (\<lambda>q. strict_prefix p q) (map fst fs)"

definition st_size :: "fs \<Rightarrow> path \<Rightarrow> nat" where
  "st_size fs p = (case map_of fs p of Some (File n) \<Rightarrow> n | _ \<Rightarrow> 4096)"

text \<open>\<^verbatim>\<open>item.glob('*.ext')\<close>: the direct children whose name ends with the extension.\<close>

definition glob_ext :: "fs \<Rightarrow> path \<Rightarrow> string \<Rightarrow> path list" where
  "glob_ext fs p ext = filter (\<lambda>q. suffix ext (path_name q)) (iterdir fs p)"

section \<open>movie_cleanup.py\<close>

subsection \<open>Names\<close>

text \<open>\<^verbatim>\<open>\s*\(\d{4}\)\s*\<close> and \<^verbatim>\<open>\((\d{4})\)\<close>.\<close>

definition rx_year_strip :: rx where
  "rx_year_strip = seqs [Many is_space 0 False, Cls (ch CHR ''(''), Rep (Cls is_digit) 4 4,
                         Cls (ch CHR '')''), Many is_space 0 False]"

definition rx_year :: rx where
  "rx_year = seqs [Cls (ch CHR ''(''), Grp 1 (Rep (Cls is_digit) 4 4), Cls (ch CHR '')'')]"

definition extract_year :: "string \<Rightarrow> string option" where
  "extract_year folder_name =
     (case re_search rx_year folder_name of Some m \<Rightarrow> Some (group m 1) | None \<Rightarrow> None)"

definition small_words :: "string list" where
  "small_words = [''a'', ''an'', ''the'', ''and'', ''but'', ''or'', ''nor'',
                  ''as'', ''at'', ''by'', ''for'', ''in'', ''of'', ''on'', ''per'',
                  ''to'', ''vs'', ''via'', ''from'', ''into'', ''onto'']"

text \<open>
  \<^verbatim>\<open>^(?=[MDCLXVI])M{0,4}(CM|CD|D?C{0,3})(XC|XL|L?X{0,3})(IX|IV|V?I{0,3})$\<close> under
  IGNORECASE.
\<close>

definition one_of_i :: "string \<Rightarrow> char \<Rightarrow> bool" where
  "one_of_i s c = (to_lower c \<in> set (lower s))"

definition roman_numeral :: rx where
  "roman_numeral = seqs [Bol, Look (Cls (one_of_i ''MDCLXVI'')),
     Rep (Cls (chi CHR ''M'')) 0 4,
     Grp 1 (alts [lit_i ''CM'', lit_i ''CD'',
                  seqs [Rep (Cls (chi CHR ''D'')) 0 1, Rep (Cls (chi CHR ''C'')) 0 3]]),
     Grp 2 (alts [lit_i ''XC'', lit_i ''XL'',
                  seqs [Rep (Cls (chi CHR ''L'')) 0 1, Rep (Cls (chi CHR ''X'')) 0 3]]),
     Grp 3 (alts [lit_i ''IX'', lit_i ''IV'',
                  seqs [Rep (Cls (chi CHR ''V'')) 0 1, Rep (Cls (chi CHR ''I'')) 0 3]]),
     Eol]"

text \<open>The body of the loop of \<open>radarr_title_case\<close>, for the word at index \<open>i\<close> of \<open>n\<close>.\<close>

definition title_word :: "nat \<Rightarrow> nat \<Rightarrow> string \<Rightarrow> string" where
  "title_word n i word =
     (if re_match roman_numeral word \<noteq> None then upper word
      else if i = 0 \<or> int i = int n - 1 then capitalize word
      else if lower word \<in> set small_words then lower word
      else if CHR ''-'' \<in> set word then
        join ''-'' (map (\<lambda>p. if re_match roman_numeral p = None then capitalize p else upper p)
                       (split_on CHR ''-'' word))
      else capitalize word)"

definition radarr_title_case :: "string \<Rightarrow> string" where
  "radarr_title_case title =
     (let words = split_ws title
      in join '' '' (map (\<lambda>(i, word). title_word (length words) i word) (enumerate 0 words)))"

definition clean_movie_name :: "string \<Rightarrow> string" where
  "clean_movie_name name =
     (let base_clean = re_sub rx_year_strip [] name;
          base_clean = replace_char CHR ''_'' CHR '' '' base_clean;
          base_clean = join '' '' (split_ws base_clean)
      in radarr_title_case base_clean)"

subsection \<open>\<open>handle_duplicates\<close>\<close>

text \<open>
  The dictionary that the scan builds for each folder. \<open>size_mb\<close> is a Python float;
  it is an exact rational here, which is what the float is while the folder holds less
  than \<open>2^53\<close> bytes.
\<close>

record folder =
  f_path :: path
  f_name :: string
  f_year :: "string option"
  f_size_mb :: rat
  f_video_count :: nat

definition scan_item :: "fs \<Rightarrow> path \<Rightarrow> folder" where
  "scan_item fs item =
     \<lparr> f_path = item,
       f_name = path_name item,
       f_year = extract_year (path_name item),
       f_size_mb = of_nat (sum_list (map (st_size fs) (filter (is_file fs) (rglob_all fs item))))
                   / (1024 * 1024),
       f_video_count = length (glob_ext fs item ''.mkv'' @ glob_ext fs item ''.mp4'' @
                               glob_ext fs item ''.avi'' @ glob_ext fs item ''.m4v'') \<rparr>"

text \<open>
  \<open>movie_groups\<close> is a dictionary from clean name to the list of folders, in insertion
  order.
\<close>

fun add_group :: "string \<Rightarrow> folder \<Rightarrow> (string \<times> folder list) list \<Rightarrow> (string \<times> folder list) list" where
  "add_group k v [] = [(k, [v])]"
| "add_group k v ((k', vs) # g) =
     (if k = k' then (k', vs @ [v]) # g else (k', vs) # add_group k v g)"

definition scan_groups :: "fs \<Rightarrow> path \<Rightarrow> (string \<times> folder list) list" where
  "scan_groups fs root_path =
     foldl (\<lambda>movie_groups item.
              if is_dir fs item
              then add_group (clean_movie_name (path_name item)) (scan_item fs item) movie_groups
              else movie_groups)
           [] (iterdir fs root_path)"

text \<open>
  \<^verbatim>\<open>sorted(folders, key=lambda x: (x['year'] is not None, x['size_mb']), reverse=True)\<close>:
  Python's sort is stable, also under \<^verbatim>\<open>reverse=True\<close> (the list is reversed, sorted
  and reversed again), so folders with equal keys keep their order.
\<close>

definition folder_key :: "folder \<Rightarrow> bool \<times> rat" where
  "folder_key x = (f_year x \<noteq> None, f_size_mb x)"

definition folders_sorted :: "folder list \<Rightarrow> folder list" where
  "folders_sorted folders = rev (sort_key folder_key (rev folders))"

definition keeper :: "folder list \<Rightarrow> folder" where
  "keeper folders = hd (folders_sorted folders)"

definition delete_action :: "folder \<Rightarrow> folder \<Rightarrow> pydict" where
  "delete_action keep dup =
     [(''action'', JStr ''delete''),
      (''path'', JStr (path_str (f_path dup))),
      (''reason'', JStr (''Duplicate of '' @ f_name keep))]"

definition handle_group :: "bool \<Rightarrow> folder list \<Rightarrow> pydict list \<times> fs \<Rightarrow> pydict list \<times> fs" where
  "handle_group dry_run folders st =
     (let keep = keeper folders;
          remove = tl (folders_sorted folders)
      in foldl (\<lambda>(actions, fs) dup.
                  (actions @ [delete_action keep dup],
                   if \<not> dry_run then rmtree fs (f_path dup) else fs))
               st remove)"

text \<open>
  \<open>handle_duplicates\<close> returns the action list and the filesystem it leaves; \<open>None\<close>
  is the exception that \<^verbatim>\<open>root.iterdir()\<close> raises when the root is not a directory.
\<close>

definition handle_duplicates :: "path \<Rightarrow> bool \<Rightarrow> fs \<Rightarrow> (pydict list \<times> fs) option" where
  "handle_duplicates root_path dry_run fs =
     (if \<not> is_dir fs root_path then None
      else
        (let movie_groups = scan_groups fs root_path;
             duplicates = filter (\<lambda>(k, v). length v > 1) movie_groups
         in Some (foldl (\<lambda>st (clean_name, folders). handle_group dry_run folders st)
                        ([], fs) duplicates)))"

subsection \<open>\<open>rename_for_radarr\<close>\<close>

text \<open>\<^verbatim>\<open>^.+\s\(\d{4}\)$\<close>.\<close>

definition rx_radarr_format :: rx where
  "rx_radarr_format = seqs [Bol, Many dot 1 False, Cls is_space, Cls (ch CHR ''(''),
                            Rep (Cls is_digit) 4 4, Cls (ch CHR '')''), Eol]"

definition not_str :: "string option \<Rightarrow> bool" where
  "not_str y = (y = None \<or> y = Some [])"

definition skip_action :: "path \<Rightarrow> string \<Rightarrow> pydict" where
  "skip_action item reason =
     [(''action'', JStr ''skip''), (''path'', JStr (path_str item)), (''reason'', JStr reason)]"

definition rename_action :: "path \<Rightarrow> path \<Rightarrow> string \<Rightarrow> string \<Rightarrow> pydict" where
  "rename_action item new_path original_name new_name =
     [(''action'', JStr ''rename''),
      (''old_path'', JStr (path_str item)),
      (''new_path'', JStr (path_str new_path)),
      (''old_name'', JStr original_name),
      (''new_name'', JStr new_name)]"

text \<open>
  The body of the loop. \<open>lookup_movie_year\<close> is the TMDb query, a parameter: a title
  to an optional year.
\<close>

definition rename_item :: "(string \<Rightarrow> string option) \<Rightarrow> bool \<Rightarrow> pydict list \<times> fs \<Rightarrow> path
    \<Rightarrow> pydict list \<times> fs" where
  "rename_item lookup_movie_year dry_run st item =
     (case st of (actions, fs) \<Rightarrow>
        if \<not> is_dir fs item then st
        else
          let original_name = path_name item in
          if re_match rx_radarr_format original_name \<noteq> None then st
          else
            let base_clean = clean_movie_name original_name;
                year = extract_year original_name;
                year = (if not_str year then lookup_movie_year base_clean else year)
            in if not_str year then (actions @ [skip_action item ''No year available''], fs)
               else
                 let new_name = base_clean @ '' ('' @ the year @ '')'';
                     new_path = path_parent item @ [new_name]
                 in if path_exists fs new_path
                    then (actions @ [skip_action item (''Target '' @ new_name @ '' already exists'')], fs)
                    else (actions @ [rename_action item new_path original_name new_name],
                          if \<not> dry_run then rename_path fs item new_path else fs))"

definition rename_for_radarr :: "path \<Rightarrow> (string \<Rightarrow> string option) \<Rightarrow> bool \<Rightarrow> fs
    \<Rightarrow> (pydict list \<times> fs) option" where
  "rename_for_radarr root_path lookup_movie_year dry_run fs =
     (if \<not> is_dir fs root_path then None
      else Some (foldl (rename_item lookup_movie_year dry_run) ([], fs) (sort (iterdir fs root_path))))"

subsection \<open>\<open>execute_actions_file\<close>\<close>

definition result_delete_ok :: "json \<Rightarrow> pydict" where
  "result_delete_ok src = [(''action'', JStr ''delete''), (''source'', src), (''status'', JStr ''ok'')]"

definition result_status :: "json \<Rightarrow> string \<Rightarrow> pydict" where
  "result_status a_type status = [(''action'', a_type), (''status'', JStr status)]"

definition result_error :: "json \<Rightarrow> string \<Rightarrow> pydict" where
  "result_error a_type msg = [(''action'', a_type), (''status'', JStr ''error''), (''error'', JStr msg)]"

text \<open>The loop over the children of a directory that a delete action names.\<close>

definition delete_dir_files :: "fs \<Rightarrow> path \<Rightarrow> fs" where
  "delete_dir_files fs src_path =
     foldl (\<lambda>fs child. if is_file fs child then unlink fs child else fs)
           fs (sort (iterdir fs src_path))"

text \<open>The block under \<^verbatim>\<open>if not dry_run:\<close> of a delete action.\<close>

definition delete_path :: "fs \<Rightarrow> path \<Rightarrow> fs" where
  "delete_path fs src_path =
     (if path_exists fs src_path then
        (if is_file fs src_path then unlink fs src_path
         else if is_dir fs src_path then
           (let fs1 = delete_dir_files fs src_path
            in case rmdir fs1 src_path of Some fs2 \<Rightarrow> fs2 | None \<Rightarrow> fs1)
         else fs)
      else fs)"

text \<open>
  The state of the executor: the results so far, \<open>folders_to_check\<close>, the filesystem.
  \<open>exec_action\<close> is the body of the loop over the actions. The \<^verbatim>\<open>move\<close> and
  \<^verbatim>\<open>rename\<close> branches of the source are \<^verbatim>\<open>pass\<close>. An exception inside the
  \<^verbatim>\<open>try\<close> becomes an error result: the \<^verbatim>\<open>ValueError\<close> of a delete with no source,
  and the \<^verbatim>\<open>TypeError\<close> of \<^verbatim>\<open>Path(src)\<close> when the source is not a string.
\<close>

type_synonym exec_state = "pydict list \<times> string set \<times> fs"

definition exec_action :: "bool \<Rightarrow> exec_state \<Rightarrow> pydict \<Rightarrow> exec_state" where
  "exec_action dry_run st action =
     (case st of (results, folders_to_check, fs) \<Rightarrow>
        let a_type = dget action ''action'' in
        if a_type = JStr ''move'' then st
        else if a_type = JStr ''delete'' then
          (let src = py_or (dget action ''source'') (dget action ''path'') in
           if \<not> truthy src
           then (results @ [result_error a_type ''delete action requires source''],
                 folders_to_check, fs)
           else
             (case src of
                JStr s \<Rightarrow>
                  (let src_path = Path_of s;
                       fs' = (if \<not> dry_run then delete_path fs src_path else fs)
                   in (results @ [result_delete_ok src],
                       insert (path_str (path_parent src_path)) folders_to_check, fs'))
              | _ \<Rightarrow>
                  (results @ [result_error a_type
                     (''expected str, bytes or os.PathLike object, not '' @ type_name src)],
                   folders_to_check, fs)))
        else if a_type = JStr ''rename'' then st
        else if a_type = JStr ''keep'' \<or> a_type = JStr ''skip''
          then (results @ [result_status a_type ''skipped''], folders_to_check, fs)
        else (results @ [result_status a_type ''unknown''], folders_to_check, fs))"

text \<open>The body of the final loop over \<open>sorted(folders_to_check)\<close>.\<close>

definition cleanup_folder :: "bool \<Rightarrow> fs \<Rightarrow> string \<Rightarrow> fs" where
  "cleanup_folder dry_run fs folder =
     (let p = Path_of folder in
      if path_exists fs p \<and> is_dir fs p \<and> iterdir fs p = [] then
        (if \<not> dry_run then (case rmdir fs p of Some fs' \<Rightarrow> fs' | None \<Rightarrow> fs) else fs)
      else fs)"

text \<open>
  \<open>execute_actions_file\<close> on the parsed content of the actions file (a file that is
  missing or is not JSON returns the empty list before any action runs). It returns the
  results and the filesystem it leaves.
\<close>

definition execute_actions_file :: "pydict list \<Rightarrow> bool \<Rightarrow> fs \<Rightarrow> pydict list \<times> fs" where
  "execute_actions_file actions dry_run fs =
     (case foldl (exec_action dry_run) ([], {}, fs) actions of
        (results, folders_to_check, fs1) \<Rightarrow>
          (results, foldl (cleanup_folder dry_run) fs1 (sorted_list_of_set folders_to_check)))"

section \<open>movie_cleanup_2.py: \<open>ActionExecutor.execute_delete\<close>\<close>

text \<open>
  \<^verbatim>\<open>os.remove\<close> raises when the path is missing or is a directory; \<open>execute_delete\<close>
  returns the pair (success, error) of the source, with the executor's
  \<open>folders_to_check\<close> and the filesystem.
\<close>

datatype os_error = FileNotFoundError | IsADirectoryError | FileExistsError | SameFileError

definition os_remove :: "fs \<Rightarrow> string \<Rightarrow> os_error + fs" where
  "os_remove fs p =
     (if is_file fs (Path_of p) then Inr (unlink fs (Path_of p))
      else if is_dir fs (Path_of p) then Inl IsADirectoryError
      else Inl FileNotFoundError)"

definition execute_delete :: "string set \<times> fs \<Rightarrow> string
    \<Rightarrow> (bool \<times> os_error option) \<times> string set \<times> fs" where
  "execute_delete st source =
     (case st of (folders_to_check, fs) \<Rightarrow>
        (case os_remove fs source of
           Inr fs' \<Rightarrow> ((True, None),
                       insert (path_str (path_parent (Path_of source))) folders_to_check, fs')
         | Inl e \<Rightarrow> ((False, Some e), folders_to_check, fs)))"

section \<open>movie_analyzer.py: \<open>clean_movie_name\<close>\<close>

text \<open>\<^verbatim>\<open>[^\w\s]\<close>.\<close>

definition rx_not_word_space :: rx where
  "rx_not_word_space = Cls (\<lambda>c. \<not> is_word c \<and> \<not> is_space c)"

definition clean_movie_name_analyzer :: "string \<Rightarrow> string" where
  "clean_movie_name_analyzer name =
     (let name = re_sub rx_year_strip [] name;
          name = lower name;
          name = re_sub rx_not_word_space [] name;
          name = join '' '' (split_ws name)
      in name)"

section \<open>downloads_import.py: quality and copying\<close>

subsection \<open>\<open>extract_movie_info\<close>\<close>

text \<open>
  \<^verbatim>\<open>(.+?)[.\s]+((?:19|20)\d{2})\<close>, \<^verbatim>\<open>\.(mkv|mp4|avi)$\<close>, \<^verbatim>\<open>[\.\-_]+\<close> and
  \<^verbatim>\<open>\b(1080p|720p|2160p|BluRay|WEB-DL|x265|x264|RARBG|HEVC|H\.264|H\.265)\b.*$\<close>.
\<close>

definition rx_movie_year :: rx where
  "rx_movie_year = seqs [Grp 1 (Many dot 1 True), Many sep_class 1 False,
     Grp 2 (seqs [alts [lit ''19'', lit ''20''], Rep (Cls is_digit) 2 2])]"

definition rx_extension :: rx where
  "rx_extension = seqs [Cls (ch CHR ''.''), Grp 1 (alts [lit_i ''mkv'', lit_i ''mp4'', lit_i ''avi'']), Eol]"

definition rx_separators :: rx where
  "rx_separators = Many (one_of ''.-_'') 1 False"

definition rx_tags :: rx where
  "rx_tags = seqs [Bnd,
     Grp 1 (alts [lit_i ''1080p'', lit_i ''720p'', lit_i ''2160p'', lit_i ''BluRay'',
                  lit_i ''WEB-DL'', lit_i ''x265'', lit_i ''x264'', lit_i ''RARBG'',
                  lit_i ''HEVC'', lit_i ''H.264'', lit_i ''H.265'']),
     Bnd, Many dot 0 False, Eol]"

definition extract_movie_info :: "string \<Rightarrow> string" where
  "extract_movie_info filename =
     (case re_search rx_movie_year filename of
        Some m \<Rightarrow>
          (let movie_name = strip (replace_char CHR ''.'' CHR '' '' (group m 1));
               year = group m 2
           in movie_name @ '' ('' @ year @ '')'')
      | None \<Rightarrow>
          (let movie_name = re_sub rx_extension [] filename;
               movie_name = re_sub rx_separators '' '' movie_name;
               movie_name = re_sub rx_tags [] movie_name
           in strip movie_name))"

subsection \<open>\<open>extract_quality_info\<close>\<close>

record quality_info =
  resolution :: nat
  codec :: string
  is_hdr :: bool
  audio :: string

definition word_rx :: "rx \<Rightarrow> rx" where
  "word_rx r = seqs [Bnd, r, Bnd]"

definition rx_codec_new :: rx where
  "rx_codec_new = word_rx (Grp 1 (alts [lit_i ''x265'', lit_i ''HEVC'',
     seqs [Cls (chi CHR ''H''), Rep (Cls (ch CHR ''.'')) 0 1, lit ''265''], lit_i ''AV1'']))"

definition rx_codec_old :: rx where
  "rx_codec_old = word_rx (Grp 1 (alts [lit_i ''x264'',
     seqs [Cls (chi CHR ''H''), Rep (Cls (ch CHR ''.'')) 0 1, lit ''264''], lit_i ''AVC'']))"

definition rx_hdr :: rx where
  "rx_hdr = word_rx (Grp 1 (alts [lit_i ''HDR'', lit_i ''HDR10'', lit_i ''DoVi'',
     seqs [lit_i ''Dolby'', Rep (Cls (\<lambda>c. is_space c \<or> c = CHR ''.'')) 0 1, lit_i ''Vision'']]))"

definition rx_web :: rx where
  "rx_web = word_rx (Grp 1 (alts [lit_i ''WEB-DL'', lit_i ''WEBDL'', lit_i ''WEBRip'']))"

definition rx_audio_hq :: rx where
  "rx_audio_hq = word_rx (Grp 1 (alts [lit_i ''Atmos'', lit_i ''TrueHD'', lit_i ''DTS-HD'', lit_i ''DTS-X'']))"

definition rx_audio_std :: rx where
  "rx_audio_std = word_rx (Grp 1 (alts [lit_i ''DDP'',
     seqs [lit_i ''DD'', Rep (Cls (one_of ''+.'')) 0 1, lit ''5.1''], lit_i ''AC3'']))"

definition found :: "rx \<Rightarrow> string \<Rightarrow> bool" where
  "found r filename = (re_search r filename \<noteq> None)"

definition extract_quality_info :: "string \<Rightarrow> int \<times> quality_info" where
  "extract_quality_info filename =
     (let quality_score = 0;
          info = \<lparr> resolution = 0, codec = [], is_hdr = False, audio = [] \<rparr>;
          (quality_score, info) =
            (if found (word_rx (lit_i ''2160p'')) filename
               then (quality_score + 4000, info\<lparr>resolution := 2160\<rparr>)
             else if found (word_rx (lit_i ''1080p'')) filename
               then (quality_score + 2000, info\<lparr>resolution := 1080\<rparr>)
             else if found (word_rx (lit_i ''720p'')) filename
               then (quality_score + 1000, info\<lparr>resolution := 720\<rparr>)
             else if found (word_rx (lit_i ''480p'')) filename
               then (quality_score + 500, info\<lparr>resolution := 480\<rparr>)
             else (quality_score, info));
          (quality_score, info) =
            (if found rx_codec_new filename
               then (quality_score + 300, info\<lparr>codec := ''x265/HEVC/AV1''\<rparr>)
             else if found rx_codec_old filename
               then (quality_score + 200, info\<lparr>codec := ''x264/H.264''\<rparr>)
             else (quality_score, info));
          (quality_score, info) =
            (if found rx_hdr filename
               then (quality_score + 500, info\<lparr>is_hdr := True\<rparr>)
             else (quality_score, info));
          quality_score =
            (if found (word_rx (lit_i ''BluRay'')) filename then quality_score + 400
             else if found rx_web filename then quality_score + 300
             else if found (word_rx (lit_i ''HDTV'')) filename then quality_score + 200
             else quality_score);
          (quality_score, info) =
            (if found rx_audio_hq filename
               then (quality_score + 100, info\<lparr>audio := ''High-quality audio''\<rparr>)
             else if found rx_audio_std filename
               then (quality_score + 50, info\<lparr>audio := ''Standard audio''\<rparr>)
             else (quality_score, info))
      in (quality_score, info))"

subsection \<open>\<open>compare_quality\<close>\<close>

text \<open>
  \<^verbatim>\<open>os.path.getsize\<close>: \<open>None\<close> is the \<^verbatim>\<open>OSError\<close> of a missing path, which the bare
  \<^verbatim>\<open>except\<close> of \<open>compare_quality\<close> swallows. The test
  \<^verbatim>\<open>new_size > existing_size * 1.1\<close> is a float comparison in the source; it is the
  exact comparison \<open>10 * new_size > 11 * existing_size\<close> here, which agrees with it for
  every pair of sizes below \<open>2^49\<close> bytes.
\<close>

definition getsize :: "fs \<Rightarrow> string \<Rightarrow> nat option" where
  "getsize fs p = (case map_of fs (Path_of p) of None \<Rightarrow> None | Some n \<Rightarrow> Some (st_size fs (Path_of p)))"

definition compare_quality :: "fs \<Rightarrow> string \<Rightarrow> string
    \<Rightarrow> bool \<times> int \<times> int \<times> quality_info \<times> quality_info" where
  "compare_quality fs new_file existing_file =
     (case extract_quality_info new_file of (new_score, new_info) \<Rightarrow>
      case extract_quality_info existing_file of (existing_score, existing_info) \<Rightarrow>
        let new_score =
          (case getsize fs new_file of
             None \<Rightarrow> new_score
           | Some new_size \<Rightarrow>
               (case getsize fs existing_file of
                  None \<Rightarrow> new_score
                | Some existing_size \<Rightarrow>
                    if new_score = existing_score then
                      (if 10 * new_size > 11 * existing_size then new_score + 50 else new_score)
                    else new_score))
        in (new_score > existing_score, new_score, existing_score, new_info, existing_info))"

subsection \<open>\<open>check_file_exists_in_tree\<close>\<close>

definition os_join :: "string \<Rightarrow> string \<Rightarrow> string" where
  "os_join a b =
     (if b \<noteq> [] \<and> hd b = CHR ''/'' then b
      else if a = [] \<or> last a = CHR ''/'' then a @ b
      else a @ ''/'' @ b)"

text \<open>
  \<^verbatim>\<open>os.walk(top)\<close>, top-down: the triple of the directory, then the walk of each of its
  subdirectories in listing order. \<open>p\<close> is the path that the string \<open>dirpath\<close>
  names. A path that is not a directory yields nothing.
\<close>

function walk :: "fs \<Rightarrow> path \<Rightarrow> string \<Rightarrow> (string \<times> string list \<times> string list) list" where
  "walk fs p dirpath =
     (if \<not> is_dir fs p then []
      else
        (let entries = iterdir fs p;
             dirs = filter (is_dir fs) entries;
             nondirs = filter (\<lambda>q. \<not> is_dir fs q) entries
         in (dirpath, map path_name dirs, map path_name nondirs)
            # concat (map (\<lambda>q. walk fs q (os_join dirpath (path_name q))) dirs)))"
  by pat_completeness auto
termination
proof (relation "measure (\<lambda>(fs, p, dirpath). length (filter (strict_prefix p) (map fst fs)))")
  show "wf (measure (\<lambda>(fs, p, dirpath). length (filter (strict_prefix p) (map fst fs))))"
    by simp
next
  fix fs :: fs and p :: path and dirpath :: string and x xa xb q
  assume q: "q \<in> set xa" and xa: "xa = filter (is_dir fs) x" and x: "x = iterdir fs p"
  from q xa x have mem: "q \<in> set (map fst fs)" and ne: "q \<noteq> []" and par: "butlast q = p"
    by (auto simp: iterdir_def)
  from ne par have sp: "strict_prefix p q"
    by (metis append_butlast_last_id not_Cons_self2 prefix_order.le_less same_append_eq
        prefixI self_append_conv)
  have imp: "\<And>r. strict_prefix q r \<Longrightarrow> strict_prefix p r"
    using sp by (meson prefix_order.less_trans)
  have eq: "filter (strict_prefix q) (map fst fs)
      = filter (strict_prefix q) (filter (strict_prefix p) (map fst fs))"
    using imp by (auto simp: filter_filter intro: filter_cong)
  have "length (filter (strict_prefix q) (filter (strict_prefix p) (map fst fs)))
      < length (filter (strict_prefix p) (map fst fs))"
    by (rule length_filter_less[of q]) (use mem sp in auto)
  then have "length (filter (strict_prefix q) (map fst fs))
      < length (filter (strict_prefix p) (map fst fs))"
    unfolding eq[symmetric] .
  then show "((fs, q, os_join dirpath (path_name q)), (fs, p, dirpath))
      \<in> measure (\<lambda>(fs, p, dirpath). length (filter (strict_prefix p) (map fst fs)))"
    by simp
qed

definition check_file_exists_in_tree :: "fs \<Rightarrow> string \<Rightarrow> string \<Rightarrow> string option" where
  "check_file_exists_in_tree fs root_folder filename =
     (case filter (\<lambda>(dirpath, dirnames, filenames). filename \<in> set filenames)
                  (walk fs (Path_of root_folder) root_folder) of
        [] \<Rightarrow> None
      | (dirpath, dirnames, filenames) # _ \<Rightarrow> Some (os_join dirpath filename))"

subsection \<open>Copying\<close>

text \<open>
  \<^verbatim>\<open>shutil.copy2(src, dst)\<close> writes a file of the source's size at the destination (into
  it, under the source's name, when the destination is a directory); it raises when the
  source is not a regular file, when the destination's folder is missing, or when both
  are the same file. \<^verbatim>\<open>os.makedirs(p, exist_ok=True)\<close> creates the missing directories
  on the way to \<open>p\<close> and raises when one of them is a file.
\<close>

definition write_file :: "fs \<Rightarrow> path \<Rightarrow> nat \<Rightarrow> fs" where
  "write_file fs p n =
     (if map_of fs p \<noteq> None then map (\<lambda>(q, x). if q = p then (q, File n) else (q, x)) fs
      else fs @ [(p, File n)])"

definition copy2 :: "fs \<Rightarrow> string \<Rightarrow> string \<Rightarrow> os_error + fs" where
  "copy2 fs src dst =
     (case map_of fs (Path_of src) of
        Some (File n) \<Rightarrow>
          (let d = Path_of dst;
               target = (if is_dir fs d then d @ [path_name (Path_of src)] else d)
           in if target = Path_of src then Inl SameFileError
              else if is_dir fs target then Inl IsADirectoryError
              else if \<not> is_dir fs (path_parent target) then Inl FileNotFoundError
              else Inr (write_file fs target n))
      | Some Dir \<Rightarrow> Inl IsADirectoryError
      | None \<Rightarrow> Inl FileNotFoundError)"

definition mkdir_step :: "os_error + fs \<Rightarrow> path \<Rightarrow> os_error + fs" where
  "mkdir_step st q =
     (case st of
        Inl e \<Rightarrow> Inl e
      | Inr fs \<Rightarrow>
          if is_dir fs q then Inr fs
          else if path_exists fs q then Inl FileExistsError
          else Inr (fs @ [(q, Dir)]))"

definition makedirs :: "fs \<Rightarrow> path \<Rightarrow> os_error + fs" where
  "makedirs fs p = foldl mkdir_step (Inr fs) (map (\<lambda>k. take k p) [0..<Suc (length p)])"

text \<open>
  The block that \<open>copy_tv_show\<close>, \<open>copy_movie\<close> and \<open>copy_music\<close> each run, word for
  word, when the file name already exists under the destination folder. The result is the
  status string that the function returns, with the filesystem it leaves.
\<close>

definition replace_existing :: "fs \<Rightarrow> string \<Rightarrow> string \<Rightarrow> bool \<Rightarrow> bool \<Rightarrow> string \<times> fs" where
  "replace_existing fs source_path existing_path dry_run replace_better =
     (if replace_better then
        (case compare_quality fs source_path existing_path of
           (is_better, new_score, old_score, new_info, old_info) \<Rightarrow>
             if is_better then
               (if dry_run then (''would_replace'', fs)
                else
                  (case os_remove fs existing_path of
                     Inl e \<Rightarrow> (''error'', fs)
                   | Inr fs1 \<Rightarrow>
                       (case copy2 fs1 source_path existing_path of
                          Inl e \<Rightarrow> (''error'', fs1)
                        | Inr fs2 \<Rightarrow> (''replaced'', fs2))))
             else (''skipped'', fs))
      else (''skipped'', fs))"

definition copy_to_folder :: "fs \<Rightarrow> string \<Rightarrow> string \<Rightarrow> string \<Rightarrow> bool \<Rightarrow> string \<times> fs" where
  "copy_to_folder fs source_path dest_folder dest_path dry_run =
     (if dry_run then (''would_copy'', fs)
      else
        (case makedirs fs (Path_of dest_folder) of
           Inl e \<Rightarrow> (''error'', fs)
         | Inr fs1 \<Rightarrow>
             (case copy2 fs1 source_path dest_path of
                Inl e \<Rightarrow> (''error'', fs1)
              | Inr fs2 \<Rightarrow> (''copied'', fs2))))"

definition copy_movie :: "fs \<Rightarrow> string \<Rightarrow> string \<Rightarrow> string \<Rightarrow> bool \<Rightarrow> bool \<Rightarrow> string \<times> fs" where
  "copy_movie fs source_path filename base_folder dry_run replace_better =
     (case check_file_exists_in_tree fs base_folder filename of
        Some existing_path \<Rightarrow>
          replace_existing fs source_path existing_path dry_run replace_better
      | None \<Rightarrow>
          (let folder_name = extract_movie_info filename;
               dest_folder = os_join base_folder folder_name;
               dest_path = os_join dest_folder filename
           in copy_to_folder fs source_path dest_folder dest_path dry_run))"

function str_nat :: "nat \<Rightarrow> string" where
  "str_nat n = (if n < 10 then [char_of (48 + n)]
                else str_nat (n div 10) @ [char_of (48 + n mod 10)])"
  by pat_completeness auto
termination
  by (relation "measure id") auto

definition copy_tv_show :: "fs \<Rightarrow> string \<Rightarrow> string \<Rightarrow> string \<Rightarrow> bool \<Rightarrow> bool \<Rightarrow> string \<times> fs" where
  "copy_tv_show fs source_path filename base_folder dry_run replace_better =
     (case extract_tv_show_info filename of
        None \<Rightarrow> (''error'', fs)
      | Some (show_name, season_num) \<Rightarrow>
          if show_name = [] then (''error'', fs)
          else
            (case check_file_exists_in_tree fs base_folder filename of
               Some existing_path \<Rightarrow>
                 replace_existing fs source_path existing_path dry_run replace_better
             | None \<Rightarrow>
                 (let dest_folder = os_join (os_join base_folder show_name)
                                            (''Season '' @ str_nat (nat season_num));
                      dest_path = os_join dest_folder filename
                  in copy_to_folder fs source_path dest_folder dest_path dry_run)))"

section \<open>Notions used in the statements and proofs\<close>

text \<open>
  The position of a matcher state (the text before and after it), the whole text of a
  state, a pattern with its groups erased, and the presence of an episode marker at a
  position of a file name.
\<close>

definition pos :: "mstate \<Rightarrow> string \<times> string" where
  "pos st = (fst st, fst (snd st))"

definition whole :: "mstate \<Rightarrow> string" where
  "whole st = fst st @ fst (snd st)"

primrec ungroup :: "rx \<Rightarrow> rx" where
  "ungroup Eps = Eps"
| "ungroup (Cls p) = Cls p"
| "ungroup (Seq r1 r2) = Seq (ungroup r1) (ungroup r2)"
| "ungroup (Alt r1 r2) = Alt (ungroup r1) (ungroup r2)"
| "ungroup (Rep r lo hi) = Rep (ungroup r) lo hi"
| "ungroup (Many p lo lazy) = Many p lo lazy"
| "ungroup (Grp n r) = ungroup r"
| "ungroup (Look r) = Look (ungroup r)"
| "ungroup Bnd = Bnd"
| "ungroup Bol = Bol"
| "ungroup Eol = Eol"

definition marker_at :: "string \<Rightarrow> string \<Rightarrow> bool" where
  "marker_at b rest =
     (rxm rx_marker_SE (b, rest, []) \<noteq> [] \<or> rxm rx_marker_x (b, rest, []) \<noteq> [])"

text \<open>Example actions, and the error result of a delete action that names no source.\<close>

definition move_example :: pydict where
  "move_example = [(''action'', JStr ''move''), (''source'', JStr ''/a/f.mkv''),
                   (''destination'', JStr ''/b'')]"

definition empty_source_example :: pydict where
  "empty_source_example = [(''action'', JStr ''delete''), (''source'', JStr [])]"

definition path_only_example :: pydict where
  "path_only_example = [(''action'', JStr ''delete''), (''path'', JStr ''/M/Alien''),
                        (''reason'', JStr ''Duplicate of Alien (1979)'')]"

definition missing_field_error :: pydict where
  "missing_field_error = result_error (JStr ''delete'') ''delete action requires source''"

text \<open>
  The condition under which \<open>compare_quality\<close> adds the size bonus, and a filesystem with
  a download and a library that holds a file of the same name.
\<close>

definition bonus_applies :: "fs \<Rightarrow> string \<Rightarrow> string \<Rightarrow> bool" where
  "bonus_applies fs new_file existing_file =
     (fst (extract_quality_info new_file) = fst (extract_quality_info existing_file)
      \<and> (case getsize fs new_file of
            None \<Rightarrow> False
          | Some new_size \<Rightarrow>
              (case getsize fs existing_file of
                 None \<Rightarrow> False
               | Some existing_size \<Rightarrow> 10 * new_size > 11 * existing_size)))"

definition fs_import :: fs where
  "fs_import = [([], Dir), ([''D''], Dir), ([''M''], Dir), ([''M'', ''A''], Dir),
                ([''M'', ''A'', ''a.720p.mkv''], File 100),
                ([''D'', ''a.720p.mkv''], File 200)]"

text \<open>
  A library with a duplicate pair, and three folder records of one duplicate group: the
  first two differ in the case of their names only and have the same year and size.
\<close>

definition fs_dups :: fs where
  "fs_dups = [([], Dir), ([''M''], Dir), ([''M'', ''Alien''], Dir),
              ([''M'', ''Alien'', ''a.mkv''], File 100), ([''M'', ''Alien (1979)''], Dir)]"










definition target :: "pydict \<Rightarrow> string option" where
  "target action =
     (if dget action ''action'' = JStr ''delete'' then
        (case py_or (dget action ''source'') (dget action ''path'') of
           JStr s \<Rightarrow> if s = [] then None else Some s
         | _ \<Rightarrow> None)
      else None)"






text \<open>
  A character class, and a pattern, that cannot tell a letter from its lower-case form;
  a matcher state in lower case; and a library with two folders whose names differ in
  punctuation only.
\<close>

definition ci_class :: "(char \<Rightarrow> bool) \<Rightarrow> bool" where
  "ci_class p = (\<forall>c. p (to_lower c) = p c)"

primrec ci_rx :: "rx \<Rightarrow> bool" where
  "ci_rx Eps = True"
| "ci_rx (Cls p) = ci_class p"
| "ci_rx (Seq r1 r2) = (ci_rx r1 \<and> ci_rx r2)"
| "ci_rx (Alt r1 r2) = (ci_rx r1 \<and> ci_rx r2)"
| "ci_rx (Rep r lo hi) = ci_rx r"
| "ci_rx (Many p lo lazy) = ci_class p"
| "ci_rx (Grp n r) = ci_rx r"
| "ci_rx (Look r) = ci_rx r"
| "ci_rx Bnd = True"
| "ci_rx Bol = True"
| "ci_rx Eol = True"

definition lower_state :: "mstate \<Rightarrow> mstate" where
  "lower_state st = (case st of (b, a, c) \<Rightarrow> (lower b, lower a, map (\<lambda>(n, g). (n, lower g)) c))"


section \<open>The matcher\<close>

text \<open>
  A match never changes the text, only the position in it; the positions that a pattern
  reaches do not depend on the groups, neither on those captured before nor on the ones
  that the pattern captures.
\<close>

lemma rep_greedy_whole:
  assumes "\<And>st st'. st' \<in> set (f st) \<Longrightarrow> whole st = s \<Longrightarrow> whole st' = s"
  shows "st' \<in> set (rep_greedy f lo hi st) \<Longrightarrow> whole st = s \<Longrightarrow> whole st' = s"
proof (induction hi arbitrary: lo st st')
  case 0
  then show ?case by (auto split: if_splits)
next
  case (Suc hi)
  from Suc.prems(1) consider
    (a) m where "m \<in> set (f st)" "st' \<in> set (rep_greedy f (lo - 1) hi m)"
    | (b) "st' = st"
    by (auto split: if_splits)
  then show ?case
  proof cases
    case a
    from a(1) Suc.prems(2) have "whole m = s" by (rule assms)
    with a(2) show ?thesis by (rule Suc.IH)
  next
    case b
    then show ?thesis using Suc.prems(2) by simp
  qed
qed

lemma rxm_whole_aux: "st' \<in> set (rxm r st) \<Longrightarrow> whole st = s \<Longrightarrow> whole st' = s"
proof (induction r arbitrary: st st')
  case Eps
  then show ?case by simp
next
  case (Cls p)
  then show ?case by (auto simp: whole_def split: prod.splits list.splits if_splits)
next
  case (Seq r1 r2)
  from Seq.prems(1) obtain m where m: "m \<in> set (rxm r1 st)" "st' \<in> set (rxm r2 m)" by auto
  from m(1) Seq.prems(2) have "whole m = s" by (rule Seq.IH(1))
  with m(2) show ?case by (rule Seq.IH(2))
next
  case (Alt r1 r2)
  from Alt.prems(1) have "st' \<in> set (rxm r1 st) \<or> st' \<in> set (rxm r2 st)" by simp
  then show ?case using Alt.IH Alt.prems(2) by blast
next
  case (Rep r lo hi)
  have "st' \<in> set (rep_greedy (rxm r) lo hi st)" using Rep.prems(1) by simp
  then show ?case using Rep.prems(2) by (rule rep_greedy_whole[rotated]) (rule Rep.IH)
next
  case (Many p lo lazy)
  then show ?case by (auto simp: whole_def Let_def split: prod.splits if_splits)
next
  case (Grp n r)
  obtain b a c where st: "st = (b, a, c)" by (cases st) auto
  from Grp.prems(1) obtain b' a' c' where m: "(b', a', c') \<in> set (rxm r st)"
    and st': "st' = (b', a', (n, drop (length b) b') # c')"
    by (auto simp: st)
  from m Grp.prems(2) have "whole (b', a', c') = s" by (rule Grp.IH)
  then show ?case by (simp add: st' whole_def)
next
  case (Look r)
  then show ?case by (simp split: if_splits)
next
  case Bnd
  then show ?case by (auto split: prod.splits if_splits)
next
  case Bol
  then show ?case by (auto split: prod.splits if_splits)
next
  case Eol
  then show ?case by (auto split: prod.splits if_splits)
qed

lemma rxm_whole: "st' \<in> set (rxm r st) \<Longrightarrow> whole st' = whole st"
  by (rule rxm_whole_aux) simp_all

lemma concat_pos_cong:
  assumes "map pos xs = map pos ys"
    and "\<And>x y. pos x = pos y \<Longrightarrow> map pos (F x) = map pos (G y)"
  shows "map pos (concat (map F xs)) = map pos (concat (map G ys))"
  using assms(1)
proof (induction xs arbitrary: ys)
  case Nil
  then show ?case by simp
next
  case (Cons x xs)
  then obtain y ys' where ys: "ys = y # ys'" by (cases ys) auto
  with Cons.prems have "pos x = pos y" "map pos xs = map pos ys'" by auto
  then show ?case using Cons.IH assms(2) ys by simp
qed

lemma rep_greedy_pos:
  assumes "\<And>x y. pos x = pos y \<Longrightarrow> map pos (f x) = map pos (g y)"
  shows "pos st = pos st' \<Longrightarrow> map pos (rep_greedy f lo hi st) = map pos (rep_greedy g lo hi st')"
proof (induction hi arbitrary: lo st st')
  case 0
  then show ?case by simp
next
  case (Suc hi)
  have "map pos (concat (map (rep_greedy f (lo - 1) hi) (f st)))
      = map pos (concat (map (rep_greedy g (lo - 1) hi) (g st')))"
    by (rule concat_pos_cong) (use Suc assms in auto)
  then show ?case using Suc.prems by simp
qed

lemma rxm_ungroup_pos:
  "pos st = pos st' \<Longrightarrow> map pos (rxm r st) = map pos (rxm (ungroup r) st')"
proof (induction r arbitrary: st st')
  case (Seq r1 r2)
  show ?case unfolding rxm.simps ungroup.simps
    by (rule concat_pos_cong) (use Seq in auto)
next
  case (Rep r lo hi)
  show ?case unfolding rxm.simps ungroup.simps
    by (rule rep_greedy_pos) (use Rep in auto)
next
  case (Grp n r)
  have "map pos (rxm (Grp n r) st) = map pos (rxm r st)"
    by (cases st) (auto simp: pos_def split: prod.splits)
  then show ?case using Grp by simp
next
  case (Look r)
  from Look have "map pos (rxm r st) = map pos (rxm (ungroup r) st')" by blast
  then have "(rxm r st = []) = (rxm (ungroup r) st' = [])" by (metis map_is_Nil_conv)
  then show ?case using Look.prems by simp
next
  case (Alt r1 r2)
  then show ?case by simp
qed (auto simp: pos_def Let_def split: prod.splits list.splits)

lemma search_from_None_iff:
  "search_from r b a = None \<longleftrightarrow> (\<forall>x y. a = x @ y \<longrightarrow> rxm (Grp 0 r) (b @ x, y, []) = [])"
proof (induction a arbitrary: b)
  case Nil
  then show ?case by (auto split: list.splits)
next
  case (Cons c cs)
  show ?case
  proof (cases "rxm (Grp 0 r) (b, c # cs, [])")
    case Nil
    have "(\<forall>x y. c # cs = x @ y \<longrightarrow> rxm (Grp 0 r) (b @ x, y, []) = [])
       \<longleftrightarrow> (\<forall>x y. cs = x @ y \<longrightarrow> rxm (Grp 0 r) ((b @ [c]) @ x, y, []) = [])"
      using Nil by (auto simp: Cons_eq_append_conv)
    then show ?thesis using Nil Cons.IH[of "b @ [c]"] by simp
  next
    case (Cons m ms)
    then have "\<not> (\<forall>x y. c # cs = x @ y \<longrightarrow> rxm (Grp 0 r) (b @ x, y, []) = [])"
      by (metis append_Nil append_Nil2 list.distinct(1))
    then show ?thesis using Cons by (auto split: prod.splits)
  qed
qed

lemma rxm_Grp_Nil: "rxm (Grp n r) st = [] \<longleftrightarrow> rxm r st = []"
  by (cases st) auto

lemma re_search_Some_iff:
  "re_search r s \<noteq> None \<longleftrightarrow> (\<exists>x y. s = x @ y \<and> rxm r (x, y, []) \<noteq> [])"
  by (simp add: re_search_def search_from_None_iff rxm_Grp_Nil)

lemma rxm_nonempty_caps: "rxm r (b, a, c) \<noteq> [] \<Longrightarrow> rxm (ungroup r) (b, a, c') \<noteq> []"
  using rxm_ungroup_pos[of "(b, a, c)" "(b, a, c')" r] by (auto simp: pos_def)

lemma rxm_Seq_suffix:
  assumes "rxm (Seq r1 r2) (x, y, c) \<noteq> []"
  shows "\<exists>b a c'. b @ a = x @ y \<and> rxm r2 (b, a, c') \<noteq> []"
proof -
  from assms obtain st' where st': "st' \<in> set (rxm r1 (x, y, c))" "rxm r2 st' \<noteq> []"
    by auto
  obtain b a c' where [simp]: "st' = (b, a, c')" by (cases st') auto
  from rxm_whole[OF st'(1)] have "b @ a = x @ y" by (simp add: whole_def)
  then show ?thesis using st'(2) by auto
qed


lemma rxm_nonempty_caps': "rxm (ungroup r) (b, a, c') \<noteq> [] \<Longrightarrow> rxm r (b, a, c) \<noteq> []"
  using rxm_ungroup_pos[of "(b, a, c)" "(b, a, c')" r] by (auto simp: pos_def)

lemma rxm_Seq_nonempty:
  "st' \<in> set (rxm r1 st) \<Longrightarrow> rxm r2 st' \<noteq> [] \<Longrightarrow> rxm (Seq r1 r2) st \<noteq> []"
  by auto

lemma rxm_Many_mem:
  assumes "lo \<le> k" "k \<le> length (takeWhile p a)"
  shows "(b @ take k a, drop k a, c) \<in> set (rxm (Many p lo lazy) (b, a, c))"
proof -
  have "k \<in> set [lo..<Suc (length (takeWhile p a))]" using assms by auto
  then have "(\<lambda>k. (b @ take k a, drop k a, c)) k
      \<in> (\<lambda>k. (b @ take k a, drop k a, c)) ` set [lo..<Suc (length (takeWhile p a))]"
    by (rule imageI)
  then show ?thesis by (simp add: Let_def del: upt_Suc set_upt)
qed

section \<open>Claim C5: TV detection and TV identity extraction\<close>

lemma tv_prefix_suffix:
  assumes "re_search (Seq (Grp 1 (Many dot 1 True)) (Seq (Many sep_class 1 False) rtail)) f \<noteq> None"
  shows "re_search (ungroup rtail) f \<noteq> None"
proof -
  from assms obtain x y where "f = x @ y"
    "rxm (Seq (Grp 1 (Many dot 1 True)) (Seq (Many sep_class 1 False) rtail)) (x, y, []) \<noteq> []"
    unfolding re_search_Some_iff by blast
  then obtain b a c where "b @ a = f" "rxm (Seq (Many sep_class 1 False) rtail) (b, a, c) \<noteq> []"
    using rxm_Seq_suffix by metis
  then obtain b' a' c' where "b' @ a' = f" "rxm rtail (b', a', c') \<noteq> []"
    using rxm_Seq_suffix by metis
  then have "b' @ a' = f" "rxm (ungroup rtail) (b', a', []) \<noteq> []"
    using rxm_nonempty_caps by metis+
  then show ?thesis unfolding re_search_Some_iff by metis
qed

lemma tv_prefix_complete:
  assumes f: "f = pre @ [c] @ seps @ rest" and c: "dot c" and seps: "seps \<noteq> []"
    and all: "list_all sep_class seps"
    and m: "rxm (ungroup rtail) (pre @ [c] @ seps, rest, []) \<noteq> []"
  shows "re_search (Seq (Grp 1 (Many dot 1 True)) (Seq (Many sep_class 1 False) rtail)) f \<noteq> None"
proof -
  let ?a = "c # seps @ rest"
  have "1 \<le> length (takeWhile dot ?a)" using c by simp
  then have "(pre @ take 1 ?a, drop 1 ?a, []) \<in> set (rxm (Many dot 1 True) (pre, ?a, []))"
    by (intro rxm_Many_mem) simp_all
  then have s1: "(pre @ [c], seps @ rest, [(1, [c])])
      \<in> set (rxm (Grp 1 (Many dot 1 True)) (pre, ?a, []))"
    by (force simp del: rxm.simps(6))
  have tw: "takeWhile sep_class (seps @ rest) = seps @ takeWhile sep_class rest"
    using all by (simp add: takeWhile_append2 list_all_iff)
  have "1 \<le> length seps" using seps by (cases seps) auto
  moreover have "length seps \<le> length (takeWhile sep_class (seps @ rest))" by (simp add: tw)
  ultimately have "((pre @ [c]) @ take (length seps) (seps @ rest),
       drop (length seps) (seps @ rest), [(1, [c])])
      \<in> set (rxm (Many sep_class 1 False) (pre @ [c], seps @ rest, [(1, [c])]))"
    by (rule rxm_Many_mem)
  then have s2: "(pre @ [c] @ seps, rest, [(1, [c])])
      \<in> set (rxm (Many sep_class 1 False) (pre @ [c], seps @ rest, [(1, [c])]))"
    by simp
  have "rxm rtail (pre @ [c] @ seps, rest, [(1, [c])]) \<noteq> []"
    using m by (rule rxm_nonempty_caps')
  with s2 have "rxm (Seq (Many sep_class 1 False) rtail) (pre @ [c], seps @ rest, [(1, [c])]) \<noteq> []"
    by (rule rxm_Seq_nonempty)
  with s1 have "rxm (Seq (Grp 1 (Many dot 1 True)) (Seq (Many sep_class 1 False) rtail))
      (pre, ?a, []) \<noteq> []"
    by (rule rxm_Seq_nonempty)
  moreover have "f = pre @ (c # seps @ rest)" using f by simp
  ultimately show ?thesis unfolding re_search_Some_iff by blast
qed

lemma rx_tv_SE_split:
  "rx_tv_SE = Seq (Grp 1 (Many dot 1 True)) (Seq (Many sep_class 1 False)
      (seqs [Cls (chi CHR ''S''), Grp 2 (Rep (Cls is_digit) 1 2),
             Cls (chi CHR ''E''), Rep (Cls is_digit) 1 2]))"
  by (simp add: rx_tv_SE_def seqs_def)

lemma rx_tv_x_split:
  "rx_tv_x = Seq (Grp 1 (Many dot 1 True)) (Seq (Many sep_class 1 False)
      (seqs [Grp 2 (Rep (Cls is_digit) 1 2), Cls (chi CHR ''x''), Rep (Cls is_digit) 1 2]))"
  by (simp add: rx_tv_x_def seqs_def)

lemma ungroup_tv_SE:
  "ungroup (seqs [Cls (chi CHR ''S''), Grp 2 (Rep (Cls is_digit) 1 2),
             Cls (chi CHR ''E''), Rep (Cls is_digit) 1 2]) = rx_marker_SE"
  by (simp add: rx_marker_SE_def seqs_def)

lemma ungroup_tv_x:
  "ungroup (seqs [Grp 2 (Rep (Cls is_digit) 1 2), Cls (chi CHR ''x''), Rep (Cls is_digit) 1 2])
     = rx_marker_x"
  by (simp add: rx_marker_x_def seqs_def)

lemma extract_tv_show_info_Some_iff:
  "extract_tv_show_info f \<noteq> None \<longleftrightarrow>
     re_search rx_tv_SE f \<noteq> None \<or> re_search rx_tv_x f \<noteq> None"
  by (auto simp: extract_tv_show_info_def split: option.splits)

lemma is_tv_show_iff:
  "is_tv_show f \<longleftrightarrow> re_search rx_marker_SE f \<noteq> None \<or> re_search rx_marker_x f \<noteq> None"
  by (auto simp: is_tv_show_def)

lemma extract_implies_is_tv_show:
  "extract_tv_show_info f \<noteq> None \<Longrightarrow> is_tv_show f"
  unfolding extract_tv_show_info_Some_iff is_tv_show_iff
  using tv_prefix_suffix[of _ f] 
  by (metis rx_tv_SE_split rx_tv_x_split ungroup_tv_SE ungroup_tv_x)

text \<open>
  The detector is true of \<^verbatim>\<open>S01E01.mkv\<close>, and the extractor returns \<^verbatim>\<open>(None, None)\<close>
  for it: the extractor's patterns ask for a prefix and a separator before the marker.
  \<open>copy_tv_show\<close> returns \<^verbatim>\<open>"error"\<close> for such a name.
\<close>

theorem tv_detection_without_extraction:
  "is_tv_show ''S01E01.mkv'' \<and> extract_tv_show_info ''S01E01.mkv'' = None"
  by code_simp

text \<open>
  Claim C5, amended. For every file name in which an episode marker
  (\<^verbatim>\<open>S<season>E<episode>\<close> or \<^verbatim>\<open><season>x<episode>\<close>, case-insensitive, 1 or 2 digits
  each) comes after at least one character other than a newline and then one or more
  \<^verbatim>\<open>.\<close> or whitespace characters, the TV-show detector returns true and the TV identity
  extractor returns a non-null (show name, season) pair.
\<close>

theorem tv_detection_extraction_agree:
  assumes "filename = pre @ [c] @ seps @ rest"
    and "c \<noteq> CHR 0x0A"
    and "seps \<noteq> []"
    and "list_all sep_class seps"
    and "marker_at (pre @ [c] @ seps) rest"
  shows "is_tv_show filename
       \<and> (\<exists>show_name season. extract_tv_show_info filename = Some (show_name, season))"
proof -
  have c: "dot c" using assms(2) by (simp add: dot_def)
  from assms(5) have "re_search rx_tv_SE filename \<noteq> None \<or> re_search rx_tv_x filename \<noteq> None"
    unfolding marker_at_def
  proof
    assume "rxm rx_marker_SE (pre @ [c] @ seps, rest, []) \<noteq> []"
    then have "re_search rx_tv_SE filename \<noteq> None"
      unfolding rx_tv_SE_split ungroup_tv_SE[symmetric]
      by (rule tv_prefix_complete[OF assms(1) c assms(3) assms(4)])
    then show ?thesis ..
  next
    assume "rxm rx_marker_x (pre @ [c] @ seps, rest, []) \<noteq> []"
    then have "re_search rx_tv_x filename \<noteq> None"
      unfolding rx_tv_x_split ungroup_tv_x[symmetric]
      by (rule tv_prefix_complete[OF assms(1) c assms(3) assms(4)])
    then show ?thesis ..
  qed
  then have ex: "extract_tv_show_info filename \<noteq> None"
    unfolding extract_tv_show_info_Some_iff .
  then have tv: "is_tv_show filename" by (rule extract_implies_is_tv_show)
  from ex obtain p where "extract_tv_show_info filename = Some p" by blast
  then have "\<exists>show_name season. extract_tv_show_info filename = Some (show_name, season)"
    by (cases p) simp
  with tv show ?thesis by (rule conjI)
qed

theorem tv_detection_extraction_agree_witness:
  "marker_at ''Show.Name.'' ''S02E05.mkv''
   \<and> is_tv_show ''Show.Name.S02E05.mkv''
   \<and> (\<exists>show_name season. extract_tv_show_info ''Show.Name.S02E05.mkv'' = Some (show_name, season))"
proof -
  have 1: "''Show.Name.S02E05.mkv'' = ''Show.Nam'' @ [CHR ''e''] @ ''.'' @ ''S02E05.mkv''" by simp
  have 2: "CHR ''e'' \<noteq> CHR 0x0A" by simp
  have 3: "''.'' \<noteq> []" by simp
  have 4: "list_all sep_class ''.''" by (simp add: sep_class_def)
  have 5: "marker_at (''Show.Nam'' @ [CHR ''e''] @ ''.'') ''S02E05.mkv''" by code_simp
  from 5 have "marker_at ''Show.Name.'' ''S02E05.mkv''" by simp
  then show ?thesis using tv_detection_extraction_agree[OF 1 2 3 4 5] by (rule conjI)
qed

section \<open>Claim C3: one result per action\<close>

text \<open>
  Claim C3 says that the executor produces exactly one result for each action of the log.
  The docstring of \<open>execute_actions_file\<close> lists \<^verbatim>\<open>move\<close> and \<^verbatim>\<open>rename\<close> among
  the supported actions, but their branches are \<^verbatim>\<open>pass\<close>: a log that holds one move
  action produces no result at all, in dry-run and in live mode.
\<close>

theorem move_action_yields_no_result:
  "fst (execute_actions_file [move_example] dry_run fs) = []"
  by (simp add: execute_actions_file_def exec_action_def move_example_def dget_def
      split: prod.splits)

lemma rename_action_yields_no_result:
  "fst (execute_actions_file [rename_action [''a''] [''b''] ''a'' ''b''] dry_run fs) = []"
  by (simp add: execute_actions_file_def exec_action_def rename_action_def dget_def
      split: prod.splits)

section \<open>Claim C10: the source of a delete action\<close>

text \<open>
  A delete action whose \<^verbatim>\<open>source\<close> key is present and holds the empty string gets the
  missing-field error: the source reads \<^verbatim>\<open>action.get('source') or action.get('path')\<close>,
  which tests the values for truth, not the keys for presence.
\<close>

theorem delete_empty_source_is_missing_field:
  "map_of empty_source_example ''source'' \<noteq> None
   \<and> fst (execute_actions_file [empty_source_example] False []) = [missing_field_error]"
  by (simp add: execute_actions_file_def exec_action_def empty_source_example_def dget_def
      py_or_def missing_field_error_def split: prod.splits)

lemma result_neq:
  "result_delete_ok src \<noteq> missing_field_error"
  "result_error a m = missing_field_error
     \<longleftrightarrow> a = JStr ''delete'' \<and> m = ''delete action requires source''"
  by (simp_all add: result_delete_ok_def missing_field_error_def result_error_def)

text \<open>
  Claim C10, amended. The executor reads the source of a delete action under the key
  \<^verbatim>\<open>source\<close> or, when that holds no true value (it is missing, null or empty), under
  the key \<^verbatim>\<open>path\<close>: such an action is executed exactly as the action that carries the
  same value under \<^verbatim>\<open>source\<close>; and a delete action produces the missing-field error
  result exactly when neither key holds a true value.
\<close>

theorem delete_source_or_path:
  assumes "dget action ''action'' = JStr ''delete''"
  shows "(\<not> truthy (dget action ''source'') \<longrightarrow>
            exec_action dry_run (results, folders, fs) action
          = exec_action dry_run (results, folders, fs)
              [(''action'', JStr ''delete''), (''source'', dget action ''path'')])
       \<and> (exec_action dry_run (results, folders, fs) action
            = (results @ [missing_field_error], folders, fs)
          \<longleftrightarrow> \<not> truthy (dget action ''source'') \<and> \<not> truthy (dget action ''path''))"
proof (intro conjI impI)
  assume "\<not> truthy (dget action ''source'')"
  then show "exec_action dry_run (results, folders, fs) action
          = exec_action dry_run (results, folders, fs)
              [(''action'', JStr ''delete''), (''source'', dget action ''path'')]"
    using assms by (simp add: exec_action_def py_or_def dget_def)
next
  have a: "exec_action dry_run (results, folders, fs) action
      = (let src = py_or (dget action ''source'') (dget action ''path'') in
         if \<not> truthy src then (results @ [missing_field_error], folders, fs)
         else (case src of
                 JStr s \<Rightarrow>
                   (results @ [result_delete_ok src],
                    insert (path_str (path_parent (Path_of s))) folders,
                    if \<not> dry_run then delete_path fs (Path_of s) else fs)
               | _ \<Rightarrow>
                   (results @ [result_error (JStr ''delete'')
                      (''expected str, bytes or os.PathLike object, not '' @ type_name src)],
                    folders, fs)))"
    using assms by (simp add: exec_action_def missing_field_error_def Let_def split: json.splits)
  show "exec_action dry_run (results, folders, fs) action
            = (results @ [missing_field_error], folders, fs)
          \<longleftrightarrow> \<not> truthy (dget action ''source'') \<and> \<not> truthy (dget action ''path'')"
    unfolding a
    by (auto simp: py_or_def Let_def result_neq split: json.splits)
qed

theorem delete_source_or_path_witness:
  "dget path_only_example ''action'' = JStr ''delete''
   \<and> \<not> truthy (dget path_only_example ''source'')
   \<and> exec_action False ([], {}, [([''M'', ''Alien''], Dir)]) path_only_example
     = exec_action False ([], {}, [([''M'', ''Alien''], Dir)])
         [(''action'', JStr ''delete''), (''source'', JStr ''/M/Alien'')]"
proof -
  have 1: "dget path_only_example ''action'' = JStr ''delete''"
    by (simp add: path_only_example_def dget_def)
  have 2: "\<not> truthy (dget path_only_example ''source'')"
    by (simp add: path_only_example_def dget_def)
  have 3: "dget path_only_example ''path'' = JStr ''/M/Alien''"
    by (simp add: path_only_example_def dget_def)
  show ?thesis
    using delete_source_or_path[OF 1, of False "[]" "{}" "[([''M'', ''Alien''], Dir)]"] 1 2 3
    by simp
qed

section \<open>Claims C4 and C8: quality comparison and replacement\<close>

lemma quality_new_example:
  "extract_quality_info ''/D/a.720p.mkv''
     = (1000, \<lparr>resolution = 720, codec = [], is_hdr = False, audio = []\<rparr>)"
  by code_simp

lemma quality_existing_example:
  "extract_quality_info ''/M/A/a.720p.mkv''
     = (1000, \<lparr>resolution = 720, codec = [], is_hdr = False, audio = []\<rparr>)"
  by code_simp

lemma getsize_examples:
  "getsize fs_import ''/M/A/a.720p.mkv'' = Some 100"
  "getsize fs_import ''/D/a.720p.mkv'' = Some 200"
  by code_simp+

text \<open>
  Two files of equal score, the existing one twice the size of the new one: neither
  score that \<open>compare_quality\<close> returns carries the bonus. Only the new file can
  receive it.
\<close>

theorem larger_existing_gets_no_bonus:
  "fst (extract_quality_info ''/M/A/a.720p.mkv'') = fst (extract_quality_info ''/D/a.720p.mkv'')
   \<and> getsize fs_import ''/M/A/a.720p.mkv'' = Some 100
   \<and> getsize fs_import ''/D/a.720p.mkv'' = Some 200
   \<and> fst (snd (compare_quality fs_import ''/M/A/a.720p.mkv'' ''/D/a.720p.mkv'')) = 1000
   \<and> fst (snd (snd (compare_quality fs_import ''/M/A/a.720p.mkv'' ''/D/a.720p.mkv''))) = 1000"
  by (simp add: compare_quality_def quality_new_example quality_existing_example getsize_examples)

text \<open>
  Claim C4, amended. For every pair of files compared: the score returned for the existing
  file is its plain quality score, and the score returned for the new file is its plain
  quality score plus 50 if and only if the two plain scores are equal, both sizes can be
  read and the new file's size exceeds the existing file's size by more than 10%;
  otherwise it is the plain score. The result is a function of the two file names and
  their sizes, so computing it again never adds the bonus twice.
\<close>

theorem compare_quality_bonus:
  "compare_quality fs new_file existing_file =
     (let new_score = fst (extract_quality_info new_file)
                      + (if bonus_applies fs new_file existing_file then 50 else 0);
          existing_score = fst (extract_quality_info existing_file)
      in (new_score > existing_score, new_score, existing_score,
          snd (extract_quality_info new_file), snd (extract_quality_info existing_file)))"
  by (simp add: compare_quality_def bonus_applies_def Let_def split: prod.splits option.splits)

lemma compare_quality_better:
  "compare_quality fs a b = (is_better, new_score, old_score, new_info, old_info)
   \<Longrightarrow> is_better = (new_score > old_score)"
  by (auto simp: compare_quality_def Let_def split: prod.splits)

lemma map_of_remove_entry:
  "map_of (remove_entry fs p) q = (if q = p then None else map_of fs q)"
  by (induction fs) (auto simp: remove_entry_def)

lemma map_of_write_file:
  "map_of (write_file fs p n) q = (if q = p then Some (File n) else map_of fs q)"
proof (cases "map_of fs p")
  case None
  then show ?thesis
    by (auto simp: write_file_def map_add_def split: option.splits)
next
  case (Some x)
  have "map_of (map (\<lambda>(q, x). if q = p then (q, File n) else (q, x)) fs) q
      = (if q = p \<and> map_of fs p \<noteq> None then Some (File n) else map_of fs q)"
    by (induction fs) auto
  then show ?thesis using Some by (simp add: write_file_def)
qed

lemma replace_existing_live:
  assumes ex: "is_file fs (Path_of existing_path)"
    and par: "is_dir fs (path_parent (Path_of existing_path))"
    and src: "map_of fs (Path_of source_path) = Some (File n)"
    and ne: "Path_of source_path \<noteq> Path_of existing_path"
    and cq: "fst (compare_quality fs source_path existing_path)"
  shows "replace_existing fs source_path existing_path False True
       = (''replaced'', write_file (unlink fs (Path_of existing_path)) (Path_of existing_path) n)"
proof -
  let ?e = "Path_of existing_path"
  let ?fs1 = "unlink fs ?e"
  have rm: "os_remove fs existing_path = Inr ?fs1" using ex by (simp add: os_remove_def)
  have pe: "path_parent ?e \<noteq> ?e"
  proof
    assume "path_parent ?e = ?e"
    then have "is_dir fs ?e" using par by simp
    then show False using ex by (simp add: is_dir_def is_file_def)
  qed
  have s1: "map_of ?fs1 (Path_of source_path) = Some (File n)"
    using src ne by (simp add: unlink_def map_of_remove_entry)
  have d1: "\<not> is_dir ?fs1 ?e" by (simp add: is_dir_def unlink_def map_of_remove_entry)
  have p1: "is_dir ?fs1 (path_parent ?e)"
    using par pe by (simp add: is_dir_def unlink_def map_of_remove_entry)
  have cp: "copy2 ?fs1 source_path existing_path = Inr (write_file ?fs1 ?e n)"
    using s1 d1 p1 ne by (simp add: copy2_def Let_def)
  obtain a b c d where "compare_quality fs source_path existing_path = (True, a, b, c, d)"
    using cq by (cases "compare_quality fs source_path existing_path") auto
  then show ?thesis using rm cp
    by (simp add: replace_existing_def)
qed

lemma quality_stale_example:
  "extract_quality_info ''/D/1080p/a.720p.mkv''
     = (2000, \<lparr>resolution = 1080, codec = [], is_hdr = False, audio = []\<rparr>)"
  by code_simp

lemma getsize_stale_example: "getsize fs_import ''/D/1080p/a.720p.mkv'' = None"
  by code_simp

lemma exists_import_example:
  "check_file_exists_in_tree fs_import ''/M'' ''a.720p.mkv'' = Some ''/M/A/a.720p.mkv''"
  by code_simp

lemma compare_import_example:
  "compare_quality fs_import ''/D/a.720p.mkv'' ''/M/A/a.720p.mkv''
     = (True, 1050, 1000, \<lparr>resolution = 720, codec = [], is_hdr = False, audio = []\<rparr>,
        \<lparr>resolution = 720, codec = [], is_hdr = False, audio = []\<rparr>)"
  by (simp add: compare_quality_def quality_new_example quality_existing_example
      getsize_examples)

lemma compare_stale_example:
  "compare_quality fs_import ''/D/1080p/a.720p.mkv'' ''/M/A/a.720p.mkv''
     = (True, 2000, 1000, \<lparr>resolution = 1080, codec = [], is_hdr = False, audio = []\<rparr>,
        \<lparr>resolution = 720, codec = [], is_hdr = False, audio = []\<rparr>)"
  by (simp add: compare_quality_def quality_stale_example quality_existing_example
      getsize_stale_example)

lemma os_remove_import_example:
  "os_remove fs_import ''/M/A/a.720p.mkv''
     = Inr [([], Dir), ([''D''], Dir), ([''M''], Dir), ([''M'', ''A''], Dir),
            ([''D'', ''a.720p.mkv''], File 200)]"
  by code_simp

lemma copy2_stale_example:
  "copy2 [([], Dir), ([''D''], Dir), ([''M''], Dir), ([''M'', ''A''], Dir),
          ([''D'', ''a.720p.mkv''], File 200)] ''/D/1080p/a.720p.mkv'' ''/M/A/a.720p.mkv''
     = Inl FileNotFoundError"
  by code_simp

text \<open>
  Two imports into a library that holds \<^verbatim>\<open>/M/A/a.720p.mkv\<close>, the replace policy
  enabled, the new score strictly greater each time. In dry-run mode the existing file is
  not replaced: the outcome is \<^verbatim>\<open>would_replace\<close> and the filesystem is as it was.
  In live mode, when the incoming path \<^verbatim>\<open>/D/1080p/a.720p.mkv\<close> names no file (its
  score, 2000, comes from the path alone), the existing file is removed, the copy fails
  and the outcome is \<^verbatim>\<open>error\<close>: the existing file is gone and nothing has replaced it.
\<close>

theorem replacement_not_carried_out:
  "check_file_exists_in_tree fs_import ''/M'' ''a.720p.mkv'' = Some ''/M/A/a.720p.mkv''
   \<and> compare_quality fs_import ''/D/a.720p.mkv'' ''/M/A/a.720p.mkv''
       = (True, 1050, 1000, \<lparr>resolution = 720, codec = [], is_hdr = False, audio = []\<rparr>,
          \<lparr>resolution = 720, codec = [], is_hdr = False, audio = []\<rparr>)
   \<and> copy_movie fs_import ''/D/a.720p.mkv'' ''a.720p.mkv'' ''/M'' True True
       = (''would_replace'', fs_import)
   \<and> \<not> path_exists fs_import (Path_of ''/D/1080p/a.720p.mkv'')
   \<and> compare_quality fs_import ''/D/1080p/a.720p.mkv'' ''/M/A/a.720p.mkv''
       = (True, 2000, 1000, \<lparr>resolution = 1080, codec = [], is_hdr = False, audio = []\<rparr>,
          \<lparr>resolution = 720, codec = [], is_hdr = False, audio = []\<rparr>)
   \<and> copy_movie fs_import ''/D/1080p/a.720p.mkv'' ''a.720p.mkv'' ''/M'' False True
       = (''error'', [([], Dir), ([''D''], Dir), ([''M''], Dir), ([''M'', ''A''], Dir),
                      ([''D'', ''a.720p.mkv''], File 200)])
   \<and> \<not> path_exists [([], Dir), ([''D''], Dir), ([''M''], Dir), ([''M'', ''A''], Dir),
                      ([''D'', ''a.720p.mkv''], File 200)] (Path_of ''/M/A/a.720p.mkv'')"
proof -
  have "\<not> path_exists fs_import (Path_of ''/D/1080p/a.720p.mkv'')"
    by code_simp
  moreover have "\<not> path_exists [([], Dir), ([''D''], Dir), ([''M''], Dir), ([''M'', ''A''], Dir),
                      ([''D'', ''a.720p.mkv''], File 200)] (Path_of ''/M/A/a.720p.mkv'')"
    by code_simp
  ultimately show ?thesis
    by (simp add: copy_movie_def replace_existing_def exists_import_example
        compare_import_example compare_stale_example os_remove_import_example
        copy2_stale_example)
qed

text \<open>
  Claim C8, amended. When the incoming file's name already exists under the destination
  folder (the found path being a regular file in a directory): with the replace policy
  disabled the outcome is always a skip, and with it enabled an equal or lower score of
  the new file (with the tie-break) leaves the filesystem as it is and reports the new
  file as skipped. With the policy enabled and a strictly greater score, the outcome in
  dry-run mode is \<^verbatim>\<open>would_replace\<close> with the filesystem as it is, and in live mode,
  when the incoming path is a regular file other than the found one, the existing file is
  replaced: the outcome is \<^verbatim>\<open>replaced\<close>, the found path holds the content of the
  incoming file and every other path is as it was. So in live mode, for such an incoming
  file, the existing file is replaced if and only if the new score is strictly greater.
\<close>

theorem copy_movie_replace_policy:
  assumes "check_file_exists_in_tree fs base_folder filename = Some existing_path"
    and "is_file fs (Path_of existing_path)"
    and "is_dir fs (path_parent (Path_of existing_path))"
    and "compare_quality fs source_path existing_path
           = (is_better, new_score, old_score, new_info, old_info)"
    and "r = copy_movie fs source_path filename base_folder dry_run replace_better"
  shows "is_better = (new_score > old_score)
     \<and> (replace_better \<and> new_score > old_score \<and> \<not> dry_run
          \<and> map_of fs (Path_of source_path) = Some (File n)
          \<and> Path_of source_path \<noteq> Path_of existing_path \<longrightarrow>
          fst r = ''replaced''
          \<and> (\<forall>q. map_of (snd r) q
                 = (if q = Path_of existing_path then Some (File n) else map_of fs q)))
     \<and> (replace_better \<and> new_score > old_score \<and> dry_run \<longrightarrow> r = (''would_replace'', fs))
     \<and> (replace_better \<and> \<not> new_score > old_score \<longrightarrow> r = (''skipped'', fs))
     \<and> (\<not> replace_better \<longrightarrow> r = (''skipped'', fs))
     \<and> (replace_better \<and> \<not> dry_run
          \<and> map_of fs (Path_of source_path) = Some (File n)
          \<and> Path_of source_path \<noteq> Path_of existing_path \<longrightarrow>
          (fst r = ''replaced'') = (new_score > old_score))"
proof -
  have b: "is_better = (new_score > old_score)"
    using assms(4) by (rule compare_quality_better)
  have r: "r = replace_existing fs source_path existing_path dry_run replace_better"
    using assms(1,5) by (simp add: copy_movie_def)
  have live: "replace_better \<and> new_score > old_score \<and> \<not> dry_run
          \<and> map_of fs (Path_of source_path) = Some (File n)
          \<and> Path_of source_path \<noteq> Path_of existing_path \<longrightarrow>
          fst r = ''replaced''
          \<and> (\<forall>q. map_of (snd r) q
                 = (if q = Path_of existing_path then Some (File n) else map_of fs q))"
  proof (intro impI)
    assume a: "replace_better \<and> new_score > old_score \<and> \<not> dry_run
          \<and> map_of fs (Path_of source_path) = Some (File n)
          \<and> Path_of source_path \<noteq> Path_of existing_path"
    then have src: "map_of fs (Path_of source_path) = Some (File n)"
      and ne: "Path_of source_path \<noteq> Path_of existing_path" by simp_all
    from a have "fst (compare_quality fs source_path existing_path)" using assms(4) b by simp
    then have "r = (''replaced'',
        write_file (unlink fs (Path_of existing_path)) (Path_of existing_path) n)"
      using replace_existing_live[OF assms(2,3) src ne] r a by simp
    then show "fst r = ''replaced''
          \<and> (\<forall>q. map_of (snd r) q
                 = (if q = Path_of existing_path then Some (File n) else map_of fs q))"
      by (simp add: map_of_write_file unlink_def map_of_remove_entry)
  qed
  have dry: "replace_better \<and> new_score > old_score \<and> dry_run \<longrightarrow> r = (''would_replace'', fs)"
    using assms(4) b r by (simp add: replace_existing_def)
  have skip1: "replace_better \<and> \<not> new_score > old_score \<longrightarrow> r = (''skipped'', fs)"
    using assms(4) b r by (simp add: replace_existing_def)
  have skip2: "\<not> replace_better \<longrightarrow> r = (''skipped'', fs)"
    using r by (simp add: replace_existing_def)
  have iff: "replace_better \<and> \<not> dry_run
          \<and> map_of fs (Path_of source_path) = Some (File n)
          \<and> Path_of source_path \<noteq> Path_of existing_path \<longrightarrow>
          (fst r = ''replaced'') = (new_score > old_score)"
  proof (intro impI)
    assume a: "replace_better \<and> \<not> dry_run
          \<and> map_of fs (Path_of source_path) = Some (File n)
          \<and> Path_of source_path \<noteq> Path_of existing_path"
    show "(fst r = ''replaced'') = (new_score > old_score)"
    proof (cases "new_score > old_score")
      case True
      then show ?thesis using live a by simp
    next
      case False
      then have "r = (''skipped'', fs)" using skip1 a by simp
      then show ?thesis using False by simp
    qed
  qed
  from b live dry skip1 skip2 iff show ?thesis by blast
qed

theorem copy_movie_replace_policy_witness:
  "check_file_exists_in_tree fs_import ''/M'' ''a.720p.mkv'' = Some ''/M/A/a.720p.mkv''
   \<and> compare_quality fs_import ''/D/a.720p.mkv'' ''/M/A/a.720p.mkv''
       = (True, 1050, 1000, \<lparr>resolution = 720, codec = [], is_hdr = False, audio = []\<rparr>,
          \<lparr>resolution = 720, codec = [], is_hdr = False, audio = []\<rparr>)
   \<and> map_of fs_import (Path_of ''/D/a.720p.mkv'') = Some (File 200)
   \<and> fst (copy_movie fs_import ''/D/a.720p.mkv'' ''a.720p.mkv'' ''/M'' False True)
       = ''replaced''
   \<and> map_of (snd (copy_movie fs_import ''/D/a.720p.mkv'' ''a.720p.mkv'' ''/M'' False True))
        [''M'', ''A'', ''a.720p.mkv''] = Some (File 200)
   \<and> copy_movie fs_import ''/D/a.720p.mkv'' ''a.720p.mkv'' ''/M'' True True
       = (''would_replace'', fs_import)
   \<and> copy_movie fs_import ''/D/a.720p.mkv'' ''a.720p.mkv'' ''/M'' False False
       = (''skipped'', fs_import)"
proof -
  note 1 = exists_import_example
  have 2: "is_file fs_import (Path_of ''/M/A/a.720p.mkv'')" by code_simp
  have 3: "is_dir fs_import (path_parent (Path_of ''/M/A/a.720p.mkv''))" by code_simp
  have 4: "map_of fs_import (Path_of ''/D/a.720p.mkv'') = Some (File 200)" by code_simp
  have 5: "Path_of ''/D/a.720p.mkv'' \<noteq> Path_of ''/M/A/a.720p.mkv''" by code_simp
  note 6 = compare_import_example
  have 7: "Path_of ''/M/A/a.720p.mkv'' = [''M'', ''A'', ''a.720p.mkv'']"
    by code_simp
  note live = copy_movie_replace_policy[where dry_run = False and replace_better = True
      and n = 200, OF 1 2 3 6 refl]
  note dry = copy_movie_replace_policy[where dry_run = True and replace_better = True
      and n = 200, OF 1 2 3 6 refl]
  note off = copy_movie_replace_policy[where dry_run = False and replace_better = False
      and n = 200, OF 1 2 3 6 refl]
  show ?thesis using 1 4 5 6 live dry off by (simp add: 7)
qed

section \<open>Claim C2: planning and the filesystem\<close>

lemma handle_group_dry_run: "snd (handle_group True folders (actions, fs)) = fs"
proof -
  have "snd (foldl (\<lambda>(actions, fs) dup. (actions @ [delete_action k dup], fs)) (acts, fs) xs) = fs"
    for k acts xs
    by (induction xs arbitrary: acts) auto
  then show ?thesis by (simp add: handle_group_def Let_def)
qed

lemma handle_groups_dry_run:
  "snd (foldl (\<lambda>st (clean_name, folders). handle_group True folders st) (actions, fs) groups) = fs"
proof (induction groups arbitrary: actions)
  case Nil
  then show ?case by simp
next
  case (Cons g groups)
  obtain k v where g: "g = (k, v)" by (cases g) auto
  obtain acts' where "handle_group True v (actions, fs) = (acts', fs)"
    using handle_group_dry_run[of v actions fs]
    by (cases "handle_group True v (actions, fs)") auto
  then show ?case using Cons.IH[of acts'] by (simp add: g)
qed

lemma rename_item_dry_run: "snd (rename_item lookup_movie_year True (actions, fs) item) = fs"
  by (simp add: rename_item_def Let_def)

lemma rename_items_dry_run:
  "snd (foldl (rename_item lookup_movie_year True) (actions, fs) items) = fs"
proof (induction items arbitrary: actions)
  case Nil
  then show ?case by simp
next
  case (Cons item items)
  obtain acts' where "rename_item lookup_movie_year True (actions, fs) item = (acts', fs)"
    using rename_item_dry_run[of lookup_movie_year actions fs item]
    by (cases "rename_item lookup_movie_year True (actions, fs) item") auto
  then show ?case using Cons.IH[of acts'] by simp
qed

text \<open>
  With \<open>dry_run\<close> false, \<open>handle_duplicates\<close> removes the duplicate folder while it
  builds the action list (\<^verbatim>\<open>shutil.rmtree\<close>), and \<open>rename_for_radarr\<close> renames.
\<close>

theorem planning_mutates_when_live:
  "handle_duplicates [''M''] False fs_dups
     = Some ([[(''action'', JStr ''delete''), (''path'', JStr ''/M/Alien''),
               (''reason'', JStr ''Duplicate of Alien (1979)'')]],
             [([], Dir), ([''M''], Dir), ([''M'', ''Alien (1979)''], Dir)])
   \<and> [([], Dir), ([''M''], Dir), ([''M'', ''Alien (1979)''], Dir)] \<noteq> fs_dups"
  by code_simp

text \<open>
  Claim C2, amended. For every invocation of duplicate handling and of Radarr-format
  renaming with \<open>dry_run\<close> true (the default of the script), the filesystem after the
  call is the filesystem before it: planning only enumerates directories and files, reads
  sizes and returns the action list. (With \<open>dry_run\<close> false the same functions delete
  and rename.)
\<close>

theorem planning_dry_run_read_only:
  "(handle_duplicates root_path True fs = Some (actions, fs') \<longrightarrow> fs' = fs)
   \<and> (rename_for_radarr root_path lookup_movie_year True fs = Some (actions', fs'') \<longrightarrow> fs'' = fs)"
proof (intro conjI impI)
  assume "handle_duplicates root_path True fs = Some (actions, fs')"
  then have "fs' = snd (foldl (\<lambda>st (clean_name, folders). handle_group True folders st) ([], fs)
       (filter (\<lambda>(k, v). length v > 1) (scan_groups fs root_path)))"
    by (auto simp: handle_duplicates_def Let_def split: if_splits)
  then show "fs' = fs" by (simp only: handle_groups_dry_run)
next
  assume "rename_for_radarr root_path lookup_movie_year True fs = Some (actions', fs'')"
  then have "fs'' = snd (foldl (rename_item lookup_movie_year True) ([], fs)
       (sort (iterdir fs root_path)))"
    by (auto simp: rename_for_radarr_def split: if_splits)
  then show "fs'' = fs" by (simp only: rename_items_dry_run)
qed

theorem planning_dry_run_read_only_witness:
  "handle_duplicates [''M''] True fs_dups
     = Some ([[(''action'', JStr ''delete''), (''path'', JStr ''/M/Alien''),
               (''reason'', JStr ''Duplicate of Alien (1979)'')]], fs_dups)
   \<and> rename_for_radarr [''M''] (\<lambda>title. None) True fs_dups
     = Some ([[(''action'', JStr ''skip''), (''path'', JStr ''/M/Alien''),
               (''reason'', JStr ''No year available'')]], fs_dups)"
proof -
  have 1: "handle_duplicates [''M''] True fs_dups
     = Some ([[(''action'', JStr ''delete''), (''path'', JStr ''/M/Alien''),
               (''reason'', JStr ''Duplicate of Alien (1979)'')]], fs_dups)"
    by code_simp
  have 2: "rename_for_radarr [''M''] (\<lambda>title. None) True fs_dups
     = Some ([[(''action'', JStr ''skip''), (''path'', JStr ''/M/Alien''),
               (''reason'', JStr ''No year available'')]], fs_dups)"
    by code_simp
  from planning_dry_run_read_only[of "[''M'']" fs_dups _ fs_dups "\<lambda>title. None" _ fs_dups] 1 2
  show ?thesis by simp
qed

section \<open>Claim C6: the keeper of a duplicate group\<close>









section \<open>Removing entries\<close>








lemma iterdir_child: "q \<in> set (iterdir fs p) \<Longrightarrow> q \<noteq> [] \<and> butlast q = p"
  by (simp add: iterdir_def)







lemma not_exists: "\<not> path_exists fs p \<Longrightarrow> \<not> is_file fs p \<and> \<not> is_dir fs p"
  by (simp add: path_exists_def is_file_def is_dir_def)




section \<open>Claim C9: deleting a directory\<close>





section \<open>Claim C1: running a log twice\<close>





























text \<open>
  The executor of movie_cleanup_2.py, for comparison: a delete whose source is missing is
  an error there.
\<close>

lemma execute_delete_missing_source:
  "\<not> path_exists fs (Path_of source)
   \<Longrightarrow> execute_delete (folders, fs) source = ((False, Some FileNotFoundError), folders, fs)"
  by (simp add: execute_delete_def os_remove_def not_exists)

section \<open>Letter case\<close>

lemma to_lower_eq:
  "to_lower c =
    (if c = CHR ''A'' then CHR ''a'' else if c = CHR ''B'' then CHR ''b''
     else if c = CHR ''C'' then CHR ''c'' else if c = CHR ''D'' then CHR ''d''
     else if c = CHR ''E'' then CHR ''e'' else if c = CHR ''F'' then CHR ''f''
     else if c = CHR ''G'' then CHR ''g'' else if c = CHR ''H'' then CHR ''h''
     else if c = CHR ''I'' then CHR ''i'' else if c = CHR ''J'' then CHR ''j''
     else if c = CHR ''K'' then CHR ''k'' else if c = CHR ''L'' then CHR ''l''
     else if c = CHR ''M'' then CHR ''m'' else if c = CHR ''N'' then CHR ''n''
     else if c = CHR ''O'' then CHR ''o'' else if c = CHR ''P'' then CHR ''p''
     else if c = CHR ''Q'' then CHR ''q'' else if c = CHR ''R'' then CHR ''r''
     else if c = CHR ''S'' then CHR ''s'' else if c = CHR ''T'' then CHR ''t''
     else if c = CHR ''U'' then CHR ''u'' else if c = CHR ''V'' then CHR ''v''
     else if c = CHR ''W'' then CHR ''w'' else if c = CHR ''X'' then CHR ''x''
     else if c = CHR ''Y'' then CHR ''y'' else if c = CHR ''Z'' then CHR ''z''
     else c)"
  by (simp add: to_lower_def ascii_upper_def ascii_lower_def)


lemma to_lower_idem: "to_lower (to_lower c) = to_lower c"
  by (simp add: to_lower_eq)


lemma is_space_lower: "is_space (to_lower c) = is_space c"
  by (simp add: to_lower_eq is_space_def)

lemma is_digit_lower: "is_digit (to_lower c) = is_digit c"
  by (simp add: to_lower_eq is_digit_def ascii_digits_def)

lemma is_word_lower: "is_word (to_lower c) = is_word c"
  by (simp add: to_lower_eq is_word_def ascii_digits_def ascii_lower_def ascii_upper_def)

lemma newline_lower: "to_lower c = CHR 0x0A \<longleftrightarrow> c = CHR 0x0A"
  by (simp add: to_lower_eq)



lemma paren_lower:
  "to_lower c = CHR ''('' \<longleftrightarrow> c = CHR ''(''"
  "to_lower c = CHR '')'' \<longleftrightarrow> c = CHR '')''"
  by (simp_all add: to_lower_eq)


lemma lower_lower: "lower (lower s) = lower s"
  by (simp add: lower_def to_lower_idem)



lemma lower_append: "lower (x @ y) = lower x @ lower y"
  by (simp add: lower_def)

lemma length_lower: "length (lower s) = length s"
  by (simp add: lower_def)






section \<open>Matching is blind to case when the classes are\<close>

lemma lower_state_simp:
  "lower_state (b, a, c) = (lower b, lower a, map (\<lambda>(n, g). (n, lower g)) c)"
  by (simp add: lower_state_def)

lemma concat_map_lower_state:
  assumes "\<And>st. f (lower_state st) = map lower_state (f st)"
  shows "concat (map f (map lower_state xs)) = map lower_state (concat (map f xs))"
  by (induction xs) (simp_all add: assms)

lemma rep_greedy_lower:
  assumes "\<And>st. f (lower_state st) = map lower_state (f st)"
  shows "rep_greedy f lo hi (lower_state st) = map lower_state (rep_greedy f lo hi st)"
proof (induction hi arbitrary: lo st)
  case 0
  then show ?case by simp
next
  case (Suc hi)
  have "concat (map (rep_greedy f (lo - 1) hi) (map lower_state (f st)))
      = map lower_state (concat (map (rep_greedy f (lo - 1) hi) (f st)))"
    by (rule concat_map_lower_state) (rule Suc.IH)
  then show ?case by (simp add: assms)
qed

lemma takeWhile_lower:
  "ci_class p \<Longrightarrow> takeWhile p (lower a) = lower (takeWhile p a)"
  by (induction a) (simp_all add: lower_def ci_class_def)

lemma rxm_lower: "ci_rx r \<Longrightarrow> rxm r (lower_state st) = map lower_state (rxm r st)"
proof (induction r arbitrary: st)
  case Eps
  then show ?case by simp
next
  case (Cls p)
  obtain b a c where st: "st = (b, a, c)" by (cases st) auto
  show ?case using Cls
    by (cases a) (simp_all add: st lower_state_simp lower_def ci_class_def)
next
  case (Seq r1 r2)
  have "concat (map (rxm r2) (map lower_state (rxm r1 st)))
      = map lower_state (concat (map (rxm r2) (rxm r1 st)))"
    by (rule concat_map_lower_state) (use Seq in simp)
  then show ?case using Seq by simp
next
  case (Alt r1 r2)
  then show ?case by simp
next
  case (Rep r lo hi)
  have "rep_greedy (rxm r) lo hi (lower_state st) = map lower_state (rep_greedy (rxm r) lo hi st)"
    by (rule rep_greedy_lower) (use Rep in simp)
  then show ?case by simp
next
  case (Many p lo lazy)
  obtain b a c where st: "st = (b, a, c)" by (cases st) auto
  have "length (takeWhile p (lower a)) = length (takeWhile p a)"
    using Many by (simp add: takeWhile_lower length_lower)
  then show ?case
    by (simp add: st lower_state_simp Let_def lower_def take_map drop_map rev_map)
next
  case (Grp n r)
  obtain b a c where st: "st = (b, a, c)" by (cases st) auto
  have "rxm r (lower_state (b, a, c)) = map lower_state (rxm r (b, a, c))"
    using Grp by simp
  then show ?case
    by (auto simp: st lower_state_simp lower_def drop_map)
next
  case (Look r)
  then have "rxm r (lower_state st) = map lower_state (rxm r st)" by simp
  then show ?case by simp
next
  case Bnd
  obtain b a c where st: "st = (b, a, c)" by (cases st) auto
  have "b \<noteq> [] \<Longrightarrow> is_word (last (lower b)) = is_word (last b)"
    by (simp add: lower_def last_map is_word_lower)
  moreover have "a \<noteq> [] \<Longrightarrow> is_word (hd (lower a)) = is_word (hd a)"
    by (simp add: lower_def hd_map is_word_lower)
  moreover have "lower b = [] \<longleftrightarrow> b = []" "lower a = [] \<longleftrightarrow> a = []"
    by (simp_all add: lower_def)
  ultimately show ?case
    by (auto simp: st lower_state_simp)
next
  case Bol
  obtain b a c where st: "st = (b, a, c)" by (cases st) auto
  show ?case by (simp add: st lower_state_simp lower_def)
next
  case Eol
  obtain b a c where st: "st = (b, a, c)" by (cases st) auto
  have "lower a = [CHR 0x0A] \<longleftrightarrow> a = [CHR 0x0A]"
    by (cases a) (auto simp: lower_def newline_lower)
  then show ?case by (simp add: st lower_state_simp) (simp add: lower_def)
qed


lemma sub_from_lower:
  assumes "ci_rx r"
  shows "sub_from r [] (lower b) (lower a) = lower (sub_from r [] b a)"
proof (induction a arbitrary: b rule: length_induct)
  case (1 a)
  have m: "rxm r (lower b, lower a, []) = map lower_state (rxm r (b, a, []))"
    using rxm_lower[OF assms, of "(b, a, [])"] by (simp add: lower_state_simp)
  show ?case
  proof (cases a)
    case Nil
    then show ?thesis using m
      by (cases "rxm r (b, [], [])") (simp_all add: lower_def)
  next
    case (Cons x xs)
    have step: "sub_from r [] (lower (b @ [x])) (lower xs) = lower (sub_from r [] (b @ [x]) xs)"
      using 1 Cons by simp
    have lb: "lower (b @ [x]) = lower b @ [to_lower x]" by (simp add: lower_def)
    show ?thesis
    proof (cases "rxm r (b, x # xs, [])")
      case Nil
      then have "rxm r (lower b, to_lower x # lower xs, []) = []"
        using m Cons by (simp add: lower_def)
      then show ?thesis using Nil Cons step lb
        by (simp add: lower_def)
    next
      case (Cons st rest)
      obtain b' a' c' where st: "st = (b', a', c')" by (cases st) auto
      have m': "rxm r (lower b, to_lower x # lower xs, [])
          = (lower b', lower a', map (\<lambda>(n, g). (n, lower g)) c') # map lower_state rest"
        using m \<open>a = x # xs\<close> Cons st by (simp add: lower_def lower_state_simp)
      show ?thesis
      proof (cases "length a' < length (x # xs)")
        case True
        then have "sub_from r [] (lower b') (lower a') = lower (sub_from r [] b' a')"
          using 1 \<open>a = x # xs\<close> by simp
        then show ?thesis using True Cons st m' \<open>a = x # xs\<close>
          by (simp add: lower_def)
      next
        case False
        then show ?thesis using Cons st m' \<open>a = x # xs\<close> step lb
          by (simp add: lower_def)
      qed
    qed
  qed
qed

lemma re_sub_lower: "ci_rx r \<Longrightarrow> re_sub r [] (lower s) = lower (re_sub r [] s)"
  using sub_from_lower[of r "[]" s] by (simp add: re_sub_def lower_def)


section \<open>Claim C7: the grouping key\<close>

lemma ci_class_simps:
  "ci_class is_space" "ci_class is_digit" "ci_class (chi x)" "ci_class (one_of_i s)"
  "ci_class (ch CHR ''('')" "ci_class (ch CHR '')'')"
  by (simp_all add: ci_class_def is_space_lower is_digit_lower chi_def one_of_i_def ch_def
      to_lower_idem paren_lower)

lemma ci_rx_year_strip: "ci_rx rx_year_strip"
  by (simp add: rx_year_strip_def seqs_def ci_class_simps)







text \<open>
  The clean name of movie_analyzer.py is the lower-case one; it drops every character
  that is not a letter, a digit, an underscore or a space, so it keeps the underscore.
\<close>

lemma clean_movie_name_analyzer_lower:
  "clean_movie_name_analyzer (lower name) = clean_movie_name_analyzer name"
  by (simp add: clean_movie_name_analyzer_def Let_def re_sub_lower[OF ci_rx_year_strip]
      lower_lower)

lemma clean_movie_name_analyzer_examples:
  "clean_movie_name_analyzer ''Alien!'' = ''alien''"
  "clean_movie_name_analyzer ''ALIEN  (1979)'' = ''alien''"
  "clean_movie_name_analyzer ''Spider_Man'' = ''spider_man''"
  "clean_movie_name_analyzer ''SpiderMan'' = ''spiderman''"
  by code_simp+




end
